theory Spec2Isabelle
  imports Complex_Main "HOL-Library.Log_Nat"
begin

section \<open>LLM gateway: configuration\<close>

text \<open>
  The fields of \<^verbatim>\<open>Settings\<close> in \<^verbatim>\<open>llm_gateway/src/config.py\<close> that the modelled
  code reads. Times and windows are whole seconds.
\<close>

record gateway_settings =
  BUDGET_CHECK_ENABLED :: bool
  BUDGET_SOFT_LIMIT_PERCENT :: int
  RATE_LIMIT_ENABLED :: bool
  RATE_LIMIT_REQUESTS_PER_MINUTE :: int
  RATE_LIMIT_WINDOW_SECONDS :: int
  PROVIDER_PRIORITY :: "string list"
  CIRCUIT_BREAKER_ENABLED :: bool

definition settings :: gateway_settings where
  "settings =
     \<lparr> BUDGET_CHECK_ENABLED = True,
       BUDGET_SOFT_LIMIT_PERCENT = 80,
       RATE_LIMIT_ENABLED = True,
       RATE_LIMIT_REQUESTS_PER_MINUTE = 100,
       RATE_LIMIT_WINDOW_SECONDS = 60,
       PROVIDER_PRIORITY = [''openai'', ''anthropic'', ''local''],
       CIRCUIT_BREAKER_ENABLED = True \<rparr>"

section \<open>The fast key-value store\<close>

text \<open>
  The Redis commands the gateway issues, over a store that maps a key to a value and
  an optional absolute expiry time. A value is either the serialised budget blob
  (\<^verbatim>\<open>str({"budget_monthly": b, "used_current_month": u})\<close>, read back with
  \<^verbatim>\<open>eval\<close>) or an integer counter. An entry whose expiry time has been reached is
  not visible to any command.
\<close>

datatype rvalue = Blob int int | Counter int

datatype redis_error = WrongType

record entry =
  val :: rvalue
  expires_at :: "int option"

type_synonym redis = "string \<Rightarrow> entry option"

definition live :: "entry \<Rightarrow> int \<Rightarrow> bool" where
  "live e now = (case expires_at e of None \<Rightarrow> True | Some t \<Rightarrow> now < t)"

definition redis_get :: "redis \<Rightarrow> int \<Rightarrow> string \<Rightarrow> rvalue option" where
  "redis_get r now k =
     (case r k of
        None \<Rightarrow> None
      | Some e \<Rightarrow> if live e now then Some (val e) else None)"

definition redis_setex :: "redis \<Rightarrow> int \<Rightarrow> string \<Rightarrow> int \<Rightarrow> rvalue \<Rightarrow> redis" where
  "redis_setex r now k ttl v = r(k \<mapsto> \<lparr> val = v, expires_at = Some (now + ttl) \<rparr>)"

text \<open>
  \<^verbatim>\<open>INCRBY\<close>: a missing (or expired) key starts from 0 and has no expiry; an existing
  counter keeps its expiry; a key that does not hold an integer is an error.
\<close>

definition redis_incrby :: "redis \<Rightarrow> int \<Rightarrow> string \<Rightarrow> int \<Rightarrow> redis \<times> (redis_error + int)" where
  "redis_incrby r now k n =
     (case r k of
        None \<Rightarrow> (r(k \<mapsto> \<lparr> val = Counter n, expires_at = None \<rparr>), Inr n)
      | Some e \<Rightarrow>
          if live e now then
            (case val e of
               Counter c \<Rightarrow> (r(k \<mapsto> e\<lparr> val := Counter (c + n) \<rparr>), Inr (c + n))
             | Blob b u \<Rightarrow> (r, Inl WrongType))
          else (r(k \<mapsto> \<lparr> val = Counter n, expires_at = None \<rparr>), Inr n))"

text \<open>
  \<^verbatim>\<open>EXPIRE\<close>: sets the expiry of a visible key to \<open>now + ttl\<close>, whatever expiry it had;
  a non-positive \<open>ttl\<close> deletes the key; a missing key is left alone.
\<close>

definition redis_expire :: "redis \<Rightarrow> int \<Rightarrow> string \<Rightarrow> int \<Rightarrow> redis" where
  "redis_expire r now k ttl =
     (case r k of
        None \<Rightarrow> r
      | Some e \<Rightarrow>
          if live e now then
            (if ttl \<le> 0 then r(k := None)
             else r(k \<mapsto> e\<lparr> expires_at := Some (now + ttl) \<rparr>))
          else r)"

definition ttl_of :: "redis \<Rightarrow> int \<Rightarrow> string \<Rightarrow> int option" where
  "ttl_of r now k =
     (case r k of
        None \<Rightarrow> None
      | Some e \<Rightarrow>
          if live e now then
            (case expires_at e of None \<Rightarrow> None | Some t \<Rightarrow> Some (t - now))
          else None)"

section \<open>Floating-point numbers (Python \<^verbatim>\<open>float\<close>)\<close>

text \<open>
  A Python \<^verbatim>\<open>float\<close> is an IEEE 754 double: a number \<open>m \<cdot> 2 ^ e\<close> with an integer
  significand \<open>m\<close> of at most 53 bits. Every arithmetic operation returns the exact
  result rounded to the nearest double, a tie going to the even significand. A float
  is modelled as the rational number it denotes, and an operation as the exact
  operation on rationals followed by that rounding. The exponent range is not
  modelled: the numbers below are token counts and percentages, far from overflow
  and underflow.
\<close>

definition round_half_even :: "rat \<Rightarrow> int" where
  "round_half_even x =
     (let f = \<lfloor>x\<rfloor>; d = x - of_int f
      in if d < 1 / 2 then f
         else if 1 / 2 < d then f + 1
         else if even f then f else f + 1)"

text \<open>
  The exponent of a positive number \<open>x\<close>, that is the \<open>k\<close> with
  \<open>2 ^ k \<le> x < 2 ^ (k + 1)\<close>, and the distance between neighbouring doubles at \<open>x\<close>.
\<close>

definition binade :: "rat \<Rightarrow> int" where
  "binade x = (if 1 \<le> x then bitlen \<lfloor>x\<rfloor> - 1 else - bitlen (\<lceil>1 / x\<rceil> - 1))"

definition ulp :: "rat \<Rightarrow> rat" where
  "ulp x = 2 powi (binade x - 52)"

text \<open>The double nearest to an exact result.\<close>

definition float_round :: "rat \<Rightarrow> rat" where
  "float_round x =
     (if x = 0 then 0
      else sgn x * of_int (round_half_even (\<bar>x\<bar> / ulp \<bar>x\<bar>)) * ulp \<bar>x\<bar>)"

text \<open>
  \<^verbatim>\<open>float(n)\<close> of an integer, \<^verbatim>\<open>x + y\<close> and \<^verbatim>\<open>x * y\<close> on floats (an integer operand
  is converted first), and the true division \<^verbatim>\<open>a / b\<close> of two integers, which is
  correctly rounded.
\<close>

definition float_of_int :: "int \<Rightarrow> rat" where
  "float_of_int n = float_round (of_int n)"

definition float_add :: "rat \<Rightarrow> rat \<Rightarrow> rat" where
  "float_add x y = float_round (x + y)"

definition float_mul :: "rat \<Rightarrow> rat \<Rightarrow> rat" where
  "float_mul x y = float_round (x * y)"

definition true_div :: "int \<Rightarrow> int \<Rightarrow> rat" where
  "true_div a b = float_round (of_int a / of_int b)"

text \<open>
  \<^verbatim>\<open>sum\<close> over floats: it starts from the integer 0 and adds the items from left to
  right, each addition rounded.
\<close>

definition float_sum :: "rat list \<Rightarrow> rat" where
  "float_sum xs = foldl float_add 0 xs"

section \<open>Budget enforcement (\<^verbatim>\<open>utils/budget.py\<close>, class \<^verbatim>\<open>BudgetEnforcer\<close>)\<close>

text \<open>A tenant row of the relational store, keyed by the tenant id's string form.\<close>

record tenant =
  token_budget_monthly :: int
  token_used_current_month :: int
  rate_limit_per_minute :: int

type_synonym tenants = "string \<Rightarrow> tenant option"

definition budget_key :: "string \<Rightarrow> string" where
  "budget_key tenant_id_str = ''budget:'' @ tenant_id_str"

definition counter_key :: "string \<Rightarrow> string" where
  "counter_key tenant_id_str = budget_key tenant_id_str @ '':counter''"

text \<open>The dictionary \<^verbatim>\<open>_check_limits\<close> returns.\<close>

record limits =
  allowed :: bool
  budget_monthly :: int
  used_current_month :: int
  remaining :: int
  percentage_used :: rat
  soft_limit_reached :: bool
  hard_limit_reached :: bool

text \<open>
  \<^verbatim>\<open>round(x, 2)\<close> on a float: the value of \<open>x\<close> rounded to two decimals, half to
  even, and the double nearest to that decimal number.
\<close>

definition round2 :: "rat \<Rightarrow> rat" where
  "round2 x = float_round (of_int (round_half_even (x * 100)) / 100)"

text \<open>
  \<^verbatim>\<open>budget_monthly * (settings.BUDGET_SOFT_LIMIT_PERCENT / 100)\<close>: the quotient of the
  two integers is a float, and so is its product with the budget.
\<close>

definition soft_limit_threshold :: "gateway_settings \<Rightarrow> int \<Rightarrow> rat" where
  "soft_limit_threshold s budget =
     float_mul (float_of_int budget) (true_div (BUDGET_SOFT_LIMIT_PERCENT s) 100)"

text \<open>
  \<^verbatim>\<open>_check_limits\<close>. The comparison of the integer usage with the float threshold is
  exact.
\<close>

definition check_limits :: "gateway_settings \<Rightarrow> int \<Rightarrow> int \<Rightarrow> int \<Rightarrow> limits" where
  "check_limits s budget used estimated_tokens =
     (let remaining' = budget - used;
          percentage = (if 0 < budget then float_mul (true_div used budget) (float_of_int 100)
                        else 100);
          hard = (budget \<le> used + estimated_tokens);
          soft = (soft_limit_threshold s budget \<le> of_int used \<and> \<not> hard)
      in \<lparr> allowed = \<not> hard,
           budget_monthly = budget,
           used_current_month = used,
           remaining = max 0 remaining',
           percentage_used = round2 percentage,
           soft_limit_reached = soft,
           hard_limit_reached = hard \<rparr>)"

text \<open>
  The three shapes of dictionary \<^verbatim>\<open>check_budget\<close> returns: \<^verbatim>\<open>{"allowed": True}\<close>
  when the check is switched off, \<^verbatim>\<open>{"allowed": False, "error": "Tenant not found"}\<close>,
  and the result of \<^verbatim>\<open>_check_limits\<close>.
\<close>

datatype budget_check = AllowedUnchecked | TenantNotFound | Limits limits

text \<open>
  \<^verbatim>\<open>check_budget\<close>: the cached blob is used when the key is visible and parses as the
  blob (anything else raises inside the \<^verbatim>\<open>try\<close> and falls through to the database
  path); on a miss the tenant row is read and written through with a 60 second expiry.
\<close>

definition check_budget ::
  "gateway_settings \<Rightarrow> redis \<Rightarrow> tenants \<Rightarrow> int \<Rightarrow> string \<Rightarrow> int \<Rightarrow> redis \<times> budget_check" where
  "check_budget s r db now tenant_id_str estimated_tokens =
     (if \<not> BUDGET_CHECK_ENABLED s then (r, AllowedUnchecked)
      else
        (case redis_get r now (budget_key tenant_id_str) of
           Some (Blob b u) \<Rightarrow> (r, Limits (check_limits s b u estimated_tokens))
         | _ \<Rightarrow>
            (case db tenant_id_str of
               None \<Rightarrow> (r, TenantNotFound)
             | Some t \<Rightarrow>
                 (redis_setex r now (budget_key tenant_id_str) 60
                    (Blob (token_budget_monthly t) (token_used_current_month t)),
                  Limits (check_limits s (token_budget_monthly t)
                            (token_used_current_month t) estimated_tokens)))))"

definition increment_usage ::
  "redis \<Rightarrow> int \<Rightarrow> string \<Rightarrow> int \<Rightarrow> redis \<times> (redis_error + unit)" where
  "increment_usage r now tenant_id_str tokens_used =
     (case redis_incrby r now (counter_key tenant_id_str) tokens_used of
        (r', Inl e) \<Rightarrow> (r', Inl e)
      | (r', Inr c) \<Rightarrow> (r', Inr ()))"

section \<open>Rate limiting (\<^verbatim>\<open>utils/budget.py\<close>, class \<^verbatim>\<open>RateLimiter\<close>)\<close>

definition rate_key :: "string \<Rightarrow> string" where
  "rate_key tenant_id_str = ''ratelimit:'' @ tenant_id_str"

record rate_result =
  rate_allowed :: bool
  rate_limit :: int
  rate_current :: int
  rate_remaining :: int
  reset_seconds :: int

datatype rate_check = RateUnchecked | Rate rate_result

text \<open>
  \<^verbatim>\<open>check_rate_limit\<close>. \<^verbatim>\<open>limit or default\<close> takes the default for \<^verbatim>\<open>None\<close> and for 0.
  The pipeline queues \<^verbatim>\<open>INCR\<close> and \<^verbatim>\<open>EXPIRE\<close> and runs both; the first result is the
  count after the increment.
\<close>

definition check_rate_limit ::
  "gateway_settings \<Rightarrow> redis \<Rightarrow> int \<Rightarrow> string \<Rightarrow> int option \<Rightarrow> redis \<times> (redis_error + rate_check)" where
  "check_rate_limit s r now tenant_id_str limit =
     (if \<not> RATE_LIMIT_ENABLED s then (r, Inr RateUnchecked)
      else
        (let limit' = (case limit of
                         None \<Rightarrow> RATE_LIMIT_REQUESTS_PER_MINUTE s
                       | Some l \<Rightarrow> if l = 0 then RATE_LIMIT_REQUESTS_PER_MINUTE s else l);
             window = RATE_LIMIT_WINDOW_SECONDS s;
             incr = redis_incrby r now (rate_key tenant_id_str) 1;
             r' = redis_expire (fst incr) now (rate_key tenant_id_str) window
         in case snd incr of
              Inl e \<Rightarrow> (r', Inl e)
            | Inr current_count \<Rightarrow>
                (r', Inr (Rate \<lparr> rate_allowed = (current_count \<le> limit'),
                                 rate_limit = limit',
                                 rate_current = current_count,
                                 rate_remaining = max 0 (limit' - current_count),
                                 reset_seconds = window \<rparr>))))"

section \<open>Token estimation (\<^verbatim>\<open>create_completion\<close>, \<^verbatim>\<open>main.py\<close>)\<close>

record message =
  role :: string
  content :: string

text \<open>
  \<^verbatim>\<open>str.split()\<close> without arguments: maximal runs of non-whitespace characters. The
  whitespace characters are those of \<^verbatim>\<open>str.isspace\<close> among the first 256 code points.
\<close>

definition is_space :: "char \<Rightarrow> bool" where
  "is_space c =
     (let n = (of_char c :: nat)
      in (9 \<le> n \<and> n \<le> 13) \<or> (28 \<le> n \<and> n \<le> 32) \<or> n = 133 \<or> n = 160)"

fun split_acc :: "string \<Rightarrow> string \<Rightarrow> string list" where
  "split_acc cur [] = (if cur = [] then [] else [rev cur])"
| "split_acc cur (c # cs) =
     (if is_space c then (if cur = [] then split_acc [] cs else rev cur # split_acc [] cs)
      else split_acc (c # cur) cs)"

definition split_ws :: "string \<Rightarrow> string list" where
  "split_ws s = split_acc [] s"

text \<open>\<^verbatim>\<open>int(x)\<close> on a number: truncation toward zero.\<close>

definition py_int :: "rat \<Rightarrow> int" where
  "py_int x = (if 0 \<le> x then \<lfloor>x\<rfloor> else \<lceil>x\<rceil>)"

text \<open>
  \<^verbatim>\<open>sum(len(msg.content.split()) * 1.3 for msg in request.messages)\<close>: the literal
  \<^verbatim>\<open>1.3\<close> is the double nearest to 13/10, each product is a float product, and the
  products are added as floats.
\<close>

definition token_sum :: "message list \<Rightarrow> rat" where
  "token_sum messages =
     float_sum (map (\<lambda>msg. float_mul (float_of_int (int (length (split_ws (content msg)))))
                              (float_round (13 / 10))) messages)"

text \<open>\<^verbatim>\<open>estimated_tokens = int(estimated_tokens)\<close>.\<close>

definition estimated_tokens :: "message list \<Rightarrow> int" where
  "estimated_tokens messages = py_int (token_sum messages)"

text \<open>The number of whitespace-separated words of all message contents together.\<close>

definition word_total :: "message list \<Rightarrow> nat" where
  "word_total ms = sum_list (map (\<lambda>msg. length (split_ws (content msg))) ms)"

section \<open>Requests, responses and exceptions (\<^verbatim>\<open>schemas.py\<close>, \<^verbatim>\<open>providers/base.py\<close>)\<close>

record request =
  model :: string
  messages :: "message list"
  tenant_id :: string
  run_id :: "string option"
  step_id :: "string option"
  preferred_provider :: "string option"

record token_usage =
  prompt_tokens :: int
  completion_tokens :: int
  total_tokens :: int

record response =
  response_id :: string
  response_model :: string
  provider :: string
  response_content :: string
  finish_reason :: string
  usage :: token_usage
  response_cost_usd :: rat
  latency_ms :: int
  is_fallback :: bool
  attempted_providers :: "string list"

text \<open>
  The exceptions that can leave \<^verbatim>\<open>create_completion\<close>: the four classes of
  \<^verbatim>\<open>providers/base.py\<close> with their constructor arguments, the circuit breaker's
  \<^verbatim>\<open>CircuitBreakerError\<close>, a \<^verbatim>\<open>KeyError\<close> on a dictionary and the store's error.
\<close>

datatype exc =
    ProviderError string string "exc option"
  | BudgetExceededError string int int
  | RateLimitError string int
  | ModelNotSupportedError string string
  | CircuitBreakerError
  | KeyError string
  | ResponseError redis_error

section \<open>Provider routing (\<^verbatim>\<open>providers/router.py\<close>)\<close>

text \<open>
  A provider is known to the router by its name and by the keys of its
  \<^verbatim>\<open>supported_models\<close> dictionary.
\<close>

record provider_handle =
  name :: string
  supported_models :: "(string \<times> string) list"

definition openai :: provider_handle where
  "openai =
     \<lparr> name = ''openai'',
       supported_models =
         [(''gpt-4'', ''gpt-4''),
          (''gpt-4-turbo'', ''gpt-4-turbo-preview''),
          (''gpt-4-turbo-preview'', ''gpt-4-turbo-preview''),
          (''gpt-3.5-turbo'', ''gpt-3.5-turbo''),
          (''gpt-3.5'', ''gpt-3.5-turbo'')] \<rparr>"

definition anthropic :: provider_handle where
  "anthropic =
     \<lparr> name = ''anthropic'',
       supported_models =
         [(''claude-3-opus'', ''claude-3-opus-20240229''),
          (''claude-3-sonnet'', ''claude-3-sonnet-20240229''),
          (''claude-3-haiku'', ''claude-3-haiku-20240307''),
          (''claude-opus'', ''claude-3-opus-20240229''),
          (''claude-sonnet'', ''claude-3-sonnet-20240229''),
          (''claude-haiku'', ''claude-3-haiku-20240307'')] \<rparr>"

definition get_name :: "provider_handle \<Rightarrow> string" where
  "get_name p = name p"

definition supports_model :: "provider_handle \<Rightarrow> string \<Rightarrow> bool" where
  "supports_model p m = (m \<in> set (map fst (supported_models p)))"

text \<open>\<^verbatim>\<open>str.lower\<close> on the first 256 code points.\<close>

definition lower_char :: "char \<Rightarrow> char" where
  "lower_char c =
     (let n = (of_char c :: nat)
      in if (65 \<le> n \<and> n \<le> 90) \<or> (192 \<le> n \<and> n \<le> 222 \<and> n \<noteq> 215)
         then char_of (n + 32) else c)"

definition lower :: "string \<Rightarrow> string" where
  "lower s = map lower_char s"

text \<open>
  The router's state is its provider list and the names that have a circuit breaker.
  The calls that leave the process are parameters: \<open>breaker_call\<close> is
  \<^verbatim>\<open>breaker.call_async(provider.completion, request)\<close> and \<open>completion\<close> is
  \<^verbatim>\<open>provider.completion(request)\<close>. Each takes and returns the state \<open>'w\<close> of
  everything outside the router (breaker counters, remote services), so that a call
  made is visible in the state returned.
\<close>

type_synonym 'w call = "'w \<Rightarrow> provider_handle \<Rightarrow> request \<Rightarrow> (exc + response) \<times> 'w"

record 'w router =
  providers :: "provider_handle list"
  circuit_breakers :: "string list"
  breaker_call :: "'w call"
  completion :: "'w call"

definition get_provider_by_name :: "'w router \<Rightarrow> string \<Rightarrow> provider_handle option" where
  "get_provider_by_name R n = find (\<lambda>p. get_name p = lower n) (providers R)"

definition get_providers_for_model ::
  "gateway_settings \<Rightarrow> 'w router \<Rightarrow> string \<Rightarrow> provider_handle list" where
  "get_providers_for_model s R m =
     (let by_priority =
            foldl (\<lambda>capable provider_name.
                     case get_provider_by_name R provider_name of
                       None \<Rightarrow> capable
                     | Some p \<Rightarrow> if supports_model p m then capable @ [p] else capable)
                  [] (PROVIDER_PRIORITY s)
      in foldl (\<lambda>capable p.
                  if p \<notin> set capable \<and> supports_model p m then capable @ [p] else capable)
               by_priority (providers R))"

definition execute_with_circuit_breaker ::
  "gateway_settings \<Rightarrow> 'w router \<Rightarrow> provider_handle \<Rightarrow> request \<Rightarrow> 'w \<Rightarrow> (exc + response) \<times> 'w" where
  "execute_with_circuit_breaker s R p req w =
     (if CIRCUIT_BREAKER_ENABLED s \<and> get_name p \<in> set (circuit_breakers R)
      then breaker_call R w p req
      else completion R w p req)"

fun join :: "string \<Rightarrow> string list \<Rightarrow> string" where
  "join sep [] = []"
| "join sep [x] = x"
| "join sep (x # y # ys) = x @ sep @ join sep (y # ys)"

definition all_providers_failed :: "request \<Rightarrow> string list \<Rightarrow> exc option \<Rightarrow> exc" where
  "all_providers_failed req attempted last_error =
     ProviderError ''all''
       (''All providers failed for model '' @ model req @ ''. Attempted: '' @ join '', '' attempted)
       last_error"

text \<open>
  The loop over \<^verbatim>\<open>capable_providers\<close> in \<^verbatim>\<open>route\<close>; \<open>n\<close> is
  \<^verbatim>\<open>len(capable_providers)\<close>, \<open>attempted\<close> and \<open>last_error\<close> are the loop's variables.
  An exception that is neither \<^verbatim>\<open>CircuitBreakerError\<close> nor \<^verbatim>\<open>ProviderError\<close>
  leaves the loop and \<^verbatim>\<open>route\<close>.
\<close>

fun try_providers ::
  "gateway_settings \<Rightarrow> 'w router \<Rightarrow> request \<Rightarrow> nat \<Rightarrow> string list \<Rightarrow> exc option \<Rightarrow>
     provider_handle list \<Rightarrow> 'w \<Rightarrow> (exc + response) \<times> 'w" where
  "try_providers s R req n attempted last_error [] w =
     (Inl (all_providers_failed req attempted last_error), w)"
| "try_providers s R req n attempted last_error (p # ps) w =
     (let attempted' = attempted @ [get_name p]
      in case execute_with_circuit_breaker s R p req w of
           (Inr resp, w') \<Rightarrow>
             (Inr (resp\<lparr> is_fallback := (if 1 < length attempted' then True else is_fallback resp),
                         attempted_providers := attempted' \<rparr>), w')
         | (Inl CircuitBreakerError, w') \<Rightarrow>
             try_providers s R req n attempted' (Some CircuitBreakerError) ps w'
         | (Inl (ProviderError pn msg orig), w') \<Rightarrow>
             if n \<le> length attempted'
             then (Inl (all_providers_failed req attempted' (Some (ProviderError pn msg orig))), w')
             else try_providers s R req n attempted' (Some (ProviderError pn msg orig)) ps w'
         | (Inl e, w') \<Rightarrow> (Inl e, w'))"

text \<open>
  The provider \<^verbatim>\<open>route\<close> serves the request on directly: \<^verbatim>\<open>preferred_provider\<close> is
  set (not \<^verbatim>\<open>None\<close>, not empty), names a registered provider, and that provider
  supports the model.
\<close>

definition preferred :: "'w router \<Rightarrow> request \<Rightarrow> provider_handle option" where
  "preferred R req =
     (case preferred_provider req of
        None \<Rightarrow> None
      | Some pn \<Rightarrow>
          if pn = [] then None
          else (case get_provider_by_name R pn of
                  None \<Rightarrow> None
                | Some p \<Rightarrow> if supports_model p (model req) then Some p else None))"

definition route ::
  "gateway_settings \<Rightarrow> 'w router \<Rightarrow> request \<Rightarrow> 'w \<Rightarrow> (exc + response) \<times> 'w" where
  "route s R req w =
     (case preferred R req of
        Some p \<Rightarrow> execute_with_circuit_breaker s R p req w
      | None \<Rightarrow>
          (let capable_providers = get_providers_for_model s R (model req)
           in if capable_providers = []
              then (Inl (ModelNotSupportedError ''any'' (model req)), w)
              else try_providers s R req (length capable_providers) [] None capable_providers w))"

section \<open>The completion endpoint (\<^verbatim>\<open>main.py\<close>)\<close>

record llm_event =
  event_run_id :: "string option"
  event_step_id :: "string option"
  event_tenant_id :: string
  event_provider :: string
  event_model :: string
  event_total_tokens :: int
  event_total_cost_usd :: rat
  event_is_fallback :: bool

definition log_llm_event :: "request \<Rightarrow> response \<Rightarrow> llm_event" where
  "log_llm_event req resp =
     \<lparr> event_run_id = run_id req,
       event_step_id = step_id req,
       event_tenant_id = tenant_id req,
       event_provider = provider resp,
       event_model = response_model resp,
       event_total_tokens = total_tokens (usage resp),
       event_total_cost_usd = response_cost_usd resp,
       event_is_fallback = is_fallback resp \<rparr>"

text \<open>
  What a request can change: the fast store, the tenant rows and the event rows of the
  relational store, the warnings logged, and the world behind the router.
\<close>

record 'w gateway =
  store :: redis
  tenant_rows :: tenants
  llm_events :: "llm_event list"
  soft_limit_warnings :: "string list"
  world :: "'w"

text \<open>
  \<^verbatim>\<open>create_completion\<close> at time \<open>now\<close>. The event row is added to a session that is
  committed only when the handler returns, so an exception after it leaves no row.
\<close>

definition create_completion ::
  "gateway_settings \<Rightarrow> 'w router \<Rightarrow> int \<Rightarrow> request \<Rightarrow> 'w gateway \<Rightarrow> (exc + response) \<times> 'w gateway" where
  "create_completion s R now req g =
     (case check_rate_limit s (store g) now (tenant_id req) None of
        (r1, Inl e) \<Rightarrow> (Inl (ResponseError e), g\<lparr> store := r1 \<rparr>)
      | (r1, Inr rate) \<Rightarrow>
          if (case rate of RateUnchecked \<Rightarrow> False | Rate rr \<Rightarrow> \<not> rate_allowed rr)
          then (Inl (RateLimitError (tenant_id req)
                       (case rate of RateUnchecked \<Rightarrow> 0 | Rate rr \<Rightarrow> reset_seconds rr)),
                g\<lparr> store := r1 \<rparr>)
          else
            (let est = estimated_tokens (messages req)
             in case check_budget s r1 (tenant_rows g) now (tenant_id req) est of
                  (r2, TenantNotFound) \<Rightarrow>
                    (Inl (KeyError ''used_current_month''), g\<lparr> store := r2 \<rparr>)
                | (r2, budget) \<Rightarrow>
                    if (case budget of Limits l \<Rightarrow> \<not> allowed l | _ \<Rightarrow> False)
                    then (Inl (case budget of
                                 Limits l \<Rightarrow>
                                   BudgetExceededError (tenant_id req)
                                     (used_current_month l) (budget_monthly l)
                               | _ \<Rightarrow> KeyError ''used_current_month''),
                          g\<lparr> store := r2 \<rparr>)
                    else
                      (let warned =
                             (if (case budget of Limits l \<Rightarrow> soft_limit_reached l | _ \<Rightarrow> False)
                              then soft_limit_warnings g @ [tenant_id req]
                              else soft_limit_warnings g)
                       in case route s R req (world g) of
                            (Inl e, w') \<Rightarrow>
                              (Inl e, g\<lparr> store := r2, soft_limit_warnings := warned, world := w' \<rparr>)
                          | (Inr resp, w') \<Rightarrow>
                              (case increment_usage r2 now (tenant_id req)
                                      (total_tokens (usage resp)) of
                                 (r3, Inl e) \<Rightarrow>
                                   (Inl (ResponseError e),
                                    g\<lparr> store := r3, soft_limit_warnings := warned, world := w' \<rparr>)
                               | (r3, Inr u) \<Rightarrow>
                                   (Inr resp,
                                    g\<lparr> store := r3,
                                       llm_events := llm_events g @ [log_llm_event req resp],
                                       soft_limit_warnings := warned,
                                       world := w' \<rparr>)))))"

text \<open>
  The exception handlers registered on the application: what each answers, or \<open>None\<close>
  for an exception class with no handler. The handler of \<^verbatim>\<open>ProviderError\<close> is the
  only one registered for a base class, and no other class above derives from it.
\<close>

record http_response =
  status_code :: nat
  error :: string
  retry_after :: "int option"
  headers :: "(string \<times> int) list"

definition exception_handlers :: "exc \<Rightarrow> http_response option" where
  "exception_handlers e =
     (case e of
        BudgetExceededError t u b \<Rightarrow>
          Some \<lparr> status_code = 402, error = ''budget_exceeded'', retry_after = None, headers = [] \<rparr>
      | RateLimitError t ra \<Rightarrow>
          Some \<lparr> status_code = 429, error = ''rate_limit_exceeded'', retry_after = Some ra,
                 headers = [(''Retry-After'', ra)] \<rparr>
      | ProviderError p m orig \<Rightarrow>
          Some \<lparr> status_code = 503, error = ''provider_error'', retry_after = None, headers = [] \<rparr>
      | _ \<Rightarrow> None)"

text \<open>
  The answer of the application: 200 for a returned response, the handler's answer for
  an exception that has one, and the framework's 500 for an exception that has none.
\<close>

definition http_answer :: "exc + response \<Rightarrow> http_response" where
  "http_answer res =
     (case res of
        Inr resp \<Rightarrow> \<lparr> status_code = 200, error = [], retry_after = None, headers = [] \<rparr>
      | Inl e \<Rightarrow>
          (case exception_handlers e of
             Some h \<Rightarrow> h
           | None \<Rightarrow>
               \<lparr> status_code = 500, error = ''Internal Server Error'', retry_after = None,
                 headers = [] \<rparr>))"

section \<open>Control plane: the status of a run (\<^verbatim>\<open>routers/runs.py\<close>)\<close>

text \<open>
  A row of table \<^verbatim>\<open>runs\<close> (\<^verbatim>\<open>models.py\<close>), with the columns the modelled code
  touches. Timestamps are whole seconds.
\<close>

record run_row =
  run_tenant_id :: string
  run_status :: string
  run_error_message :: "string option"
  run_started_at :: "int option"
  run_completed_at :: "int option"
  run_duration_seconds :: "int option"
  run_current_step :: "string option"
  run_tokens_used :: int
  run_estimated_cost_usd :: rat

type_synonym runs = "string \<Rightarrow> run_row option"

text \<open>
  Modelled from the spec: the status enumeration of \<^verbatim>\<open>RunStatusUpdate\<close>, whose schema
  module is not among the sources. The values are the seven statuses the spec gives
  for a run; \<open>status_value\<close> is the \<^verbatim>\<open>.value\<close> of a member.
\<close>

datatype RunStatus = Pending | Running | Completed | Failed | Cancelled | Timeout | BudgetExceeded

fun status_value :: "RunStatus \<Rightarrow> string" where
  "status_value Pending = ''pending''"
| "status_value Running = ''running''"
| "status_value Completed = ''completed''"
| "status_value Failed = ''failed''"
| "status_value Cancelled = ''cancelled''"
| "status_value Timeout = ''timeout''"
| "status_value BudgetExceeded = ''budget_exceeded''"

record RunStatusUpdate =
  update_status :: RunStatus
  update_error_message :: "string option"
  update_current_step :: "string option"

datatype http_exception = HTTPException nat string

definition terminal_statuses :: "string list" where
  "terminal_statuses = [''completed'', ''failed'', ''cancelled'', ''budget_exceeded'', ''timeout'']"

text \<open>\<^verbatim>\<open>if x:\<close> on an optional string: set and not empty.\<close>

definition nonempty :: "string option \<Rightarrow> bool" where
  "nonempty x = (case x of None \<Rightarrow> False | Some v \<Rightarrow> v \<noteq> [])"

text \<open>
  \<^verbatim>\<open>update_run_status\<close> (\<^verbatim>\<open>PUT /{run_id}/status\<close>) at time \<open>now\<close>, for the tenant of
  the current user. It returns the store with the updated row, and the row.
\<close>

definition update_run_status ::
  "runs \<Rightarrow> int \<Rightarrow> string \<Rightarrow> string \<Rightarrow> RunStatusUpdate \<Rightarrow> http_exception + (runs \<times> run_row)" where
  "update_run_status db now tenant rid status_update =
     (case db rid of
        None \<Rightarrow> Inl (HTTPException 404 ''Run not found'')
      | Some run \<Rightarrow>
          if run_tenant_id run \<noteq> tenant then Inl (HTTPException 404 ''Run not found'')
          else
            (let v = status_value (update_status status_update);
                 run1 = run\<lparr> run_status := v \<rparr>;
                 run2 = (if v = ''running'' \<and> run_started_at run1 = None
                         then run1\<lparr> run_started_at := Some now \<rparr> else run1);
                 run3 = (if v \<in> set terminal_statuses \<and> run_completed_at run2 = None
                         then (let run' = run2\<lparr> run_completed_at := Some now \<rparr>
                               in case run_started_at run' of
                                    None \<Rightarrow> run'
                                  | Some st \<Rightarrow> run'\<lparr> run_duration_seconds := Some (now - st) \<rparr>)
                         else run2);
                 run4 = (if nonempty (update_error_message status_update)
                         then run3\<lparr> run_error_message := update_error_message status_update \<rparr>
                         else run3);
                 run5 = (if nonempty (update_current_step status_update)
                         then run4\<lparr> run_current_step := update_current_step status_update \<rparr>
                         else run4)
             in Inr (db(rid \<mapsto> run5), run5)))"

text \<open>\<^verbatim>\<open>cancel_run\<close> (\<^verbatim>\<open>DELETE /{run_id}\<close>).\<close>

definition cancel_run :: "runs \<Rightarrow> int \<Rightarrow> string \<Rightarrow> string \<Rightarrow> http_exception + runs" where
  "cancel_run db now tenant rid =
     (case db rid of
        None \<Rightarrow> Inl (HTTPException 404 ''Run not found'')
      | Some run \<Rightarrow>
          if run_tenant_id run \<noteq> tenant then Inl (HTTPException 404 ''Run not found'')
          else if run_status run \<notin> set [''pending'', ''running'']
          then Inl (HTTPException 400 (''Cannot cancel run with status: '' @ run_status run))
          else
            (let run1 = run\<lparr> run_status := ''cancelled'', run_completed_at := Some now \<rparr>;
                 run2 = (case run_started_at run1 of
                           None \<Rightarrow> run1
                         | Some st \<Rightarrow> run1\<lparr> run_duration_seconds := Some (now - st) \<rparr>)
             in Inr (db(rid \<mapsto> run2))))"

section \<open>Orchestrator worker: step execution (\<^verbatim>\<open>step_executor.py\<close>)\<close>

text \<open>JSON values, and their truth value in a Python condition.\<close>

datatype json =
    JNull
  | JBool bool
  | JInt int
  | JStr string
  | JList "json list"
  | JObj "(string \<times> json) list"

fun truthy :: "json \<Rightarrow> bool" where
  "truthy JNull = False"
| "truthy (JBool b) = b"
| "truthy (JInt n) = (n \<noteq> 0)"
| "truthy (JStr s) = (s \<noteq> [])"
| "truthy (JList xs) = (xs \<noteq> [])"
| "truthy (JObj kvs) = (kvs \<noteq> [])"

text \<open>A row of table \<^verbatim>\<open>steps\<close>, and the relational store the worker writes.\<close>

record step_row =
  step_status :: string
  step_started_at :: "int option"
  step_completed_at :: "int option"
  step_duration_seconds :: "int option"
  step_output_data :: "json option"
  step_error_message :: "string option"
  step_tokens_used :: int
  step_cost_usd :: rat

record worker_db =
  steps :: "string \<Rightarrow> step_row option"
  run_rows :: runs

text \<open>
  What a step body returns (\<^verbatim>\<open>output\<close>, \<^verbatim>\<open>tokens_used\<close>, \<^verbatim>\<open>cost_usd\<close>), and the
  worker's configuration together with the two calls that leave the process: the
  gateway call of an \<^verbatim>\<open>llm\<close> step, given the step's configuration, the run's tenant,
  the run id and the step id, and the tool call of a \<^verbatim>\<open>tool\<close> step. Each returns the
  step's result or the text of the exception it raises.
\<close>

record step_result =
  result_output :: json
  result_tokens_used :: int
  result_cost_usd :: rat

record worker_env =
  STEP_MAX_RETRIES :: int
  SQS_DLQ_URL :: string
  llm_call :: "json \<Rightarrow> string \<Rightarrow> string \<Rightarrow> string \<Rightarrow> string + step_result"
  tool_call :: "json \<Rightarrow> string \<Rightarrow> string \<Rightarrow> string + json"
  send_ok :: bool
  delete_ok :: bool

text \<open>The text of the exception of \<^verbatim>\<open>scalar_one()\<close> on an empty result.\<close>

definition no_row :: string where
  "no_row = ''No row was found when one was required''"

text \<open>
  \<^verbatim>\<open>_update_step_status\<close>. The keyword arguments default to \<^verbatim>\<open>None\<close>, 0 and 0.0; a
  column is written when the condition on its argument holds: set for the two
  timestamps, \<^verbatim>\<open>is not None\<close> for the duration, truth for the others.
\<close>

definition update_step_status ::
  "worker_db \<Rightarrow> string \<Rightarrow> string \<Rightarrow> int option \<Rightarrow> int option \<Rightarrow> int option \<Rightarrow> json option \<Rightarrow>
     string option \<Rightarrow> int \<Rightarrow> rat \<Rightarrow> string + worker_db" where
  "update_step_status db sid status started_at completed_at duration_seconds output_data
     error_message tokens_used cost_usd =
     (case steps db sid of
        None \<Rightarrow> Inl no_row
      | Some step \<Rightarrow>
          (let s1 = step\<lparr> step_status := status \<rparr>;
               s2 = (if started_at \<noteq> None then s1\<lparr> step_started_at := started_at \<rparr> else s1);
               s3 = (if completed_at \<noteq> None then s2\<lparr> step_completed_at := completed_at \<rparr> else s2);
               s4 = (if duration_seconds \<noteq> None
                     then s3\<lparr> step_duration_seconds := duration_seconds \<rparr> else s3);
               s5 = (if (case output_data of None \<Rightarrow> False | Some j \<Rightarrow> truthy j)
                     then s4\<lparr> step_output_data := output_data \<rparr> else s4);
               s6 = (if nonempty error_message
                     then s5\<lparr> step_error_message := error_message \<rparr> else s5);
               s7 = (if tokens_used \<noteq> 0 then s6\<lparr> step_tokens_used := tokens_used \<rparr> else s6);
               s8 = (if cost_usd \<noteq> 0 then s7\<lparr> step_cost_usd := cost_usd \<rparr> else s7)
           in Inr (db\<lparr> steps := (steps db)(sid \<mapsto> s8) \<rparr>)))"

text \<open>
  \<^verbatim>\<open>run.estimated_cost_usd += cost\<close>. The column is \<^verbatim>\<open>DECIMAL(10, 6)\<close>, so the attribute
  is a \<^verbatim>\<open>decimal.Decimal\<close>, and \<^verbatim>\<open>cost\<close> is a float (the \<^verbatim>\<open>cost_usd\<close> of the step's
  result). Neither type adds the other: the statement raises \<^verbatim>\<open>TypeError\<close>, whatever
  the two values are.
\<close>

definition quoted :: "string \<Rightarrow> string" where
  "quoted s = CHR 0x27 # s @ [CHR 0x27]"

definition decimal_float_type_error :: string where
  "decimal_float_type_error =
     ''unsupported operand type(s) for +=: '' @ quoted ''decimal.Decimal'' @ '' and '' @ quoted ''float''"

definition decimal_iadd_float :: "rat \<Rightarrow> rat \<Rightarrow> string + rat" where
  "decimal_iadd_float d f = Inl decimal_float_type_error"

text \<open>
  \<^verbatim>\<open>_update_run_usage\<close>. It raises when the run row is missing, and at the second
  assignment, after \<^verbatim>\<open>run.tokens_used\<close> was incremented in the session; the result is
  then the text of the exception with the session as the function left it.
\<close>

definition update_run_usage ::
  "worker_db \<Rightarrow> string \<Rightarrow> int \<Rightarrow> rat \<Rightarrow> (string \<times> worker_db) + worker_db" where
  "update_run_usage db rid tokens cost =
     (case run_rows db rid of
        None \<Rightarrow> Inl (no_row, db)
      | Some run \<Rightarrow>
          (let run1 = run\<lparr> run_tokens_used := run_tokens_used run + tokens \<rparr>;
               db1 = db\<lparr> run_rows := (run_rows db)(rid \<mapsto> run1) \<rparr>
           in case decimal_iadd_float (run_estimated_cost_usd run1) cost of
                Inl e \<Rightarrow> Inl (e, db1)
              | Inr c \<Rightarrow>
                  Inr (db1\<lparr> run_rows := (run_rows db1)(rid \<mapsto>
                               run1\<lparr> run_estimated_cost_usd := c \<rparr>) \<rparr>)))"

text \<open>\<^verbatim>\<open>pattern in error_str\<close>: the pattern occurs as a substring.\<close>

fun starts_with :: "string \<Rightarrow> string \<Rightarrow> bool" where
  "starts_with [] s = True"
| "starts_with (p # ps) [] = False"
| "starts_with (p # ps) (c # cs) = (p = c \<and> starts_with ps cs)"

fun contains :: "string \<Rightarrow> string \<Rightarrow> bool" where
  "contains p [] = (p = [])"
| "contains p (c # cs) = (starts_with p (c # cs) \<or> contains p cs)"

definition retryable_patterns :: "string list" where
  "retryable_patterns = [''timeout'', ''connection'', ''rate limit'', ''503'', ''502'', ''500'']"

definition is_retryable_error :: "string \<Rightarrow> bool" where
  "is_retryable_error error_str = list_ex (\<lambda>pattern. contains pattern (lower error_str)) retryable_patterns"

text \<open>
  The dispatch on the step type in \<^verbatim>\<open>execute\<close>. An \<^verbatim>\<open>llm\<close> step first reads the run
  row for its tenant; \<^verbatim>\<open>decision\<close> and \<^verbatim>\<open>parallel\<close> steps return their placeholder.
\<close>

definition dispatch ::
  "worker_env \<Rightarrow> worker_db \<Rightarrow> string \<Rightarrow> string \<Rightarrow> string \<Rightarrow> json \<Rightarrow> string + step_result" where
  "dispatch env db rid sid step_type step_config =
     (if step_type = ''llm'' then
        (case run_rows db rid of
           None \<Rightarrow> Inl no_row
         | Some run \<Rightarrow> llm_call env step_config (run_tenant_id run) rid sid)
      else if step_type = ''tool'' then
        (case tool_call env step_config rid sid of
           Inl e \<Rightarrow> Inl e
         | Inr out \<Rightarrow> Inr \<lparr> result_output = out, result_tokens_used = 0, result_cost_usd = 0 \<rparr>)
      else if step_type = ''decision'' then
        Inr \<lparr> result_output = JObj [(''decision'', JStr ''placeholder'')],
              result_tokens_used = 0, result_cost_usd = 0 \<rparr>
      else if step_type = ''parallel'' then
        Inr \<lparr> result_output = JObj [(''parallel_results'', JList [])],
              result_tokens_used = 0, result_cost_usd = 0 \<rparr>
      else Inl (''Unknown step type: '' @ step_type))"

text \<open>
  The \<^verbatim>\<open>try\<close> block of \<^verbatim>\<open>execute\<close>: either it raises, and the result is the text of
  the exception with the session as the block left it, or it reaches the commit, and
  the result is the session and the step's result.
\<close>

definition try_block ::
  "worker_env \<Rightarrow> worker_db \<Rightarrow> string \<Rightarrow> string \<Rightarrow> string \<Rightarrow> json \<Rightarrow> int \<Rightarrow> int \<Rightarrow>
     (string \<times> worker_db) + (worker_db \<times> step_result)" where
  "try_block env db rid sid step_type step_config start_time completed_at =
     (case update_step_status db sid ''running'' (Some start_time) None None None None 0 0 of
        Inl e \<Rightarrow> Inl (e, db)
      | Inr db1 \<Rightarrow>
          (case dispatch env db1 rid sid step_type step_config of
             Inl e \<Rightarrow> Inl (e, db1)
           | Inr result \<Rightarrow>
               (case update_step_status db1 sid ''success'' None (Some completed_at)
                       (Some (completed_at - start_time)) (Some (result_output result)) None
                       (result_tokens_used result) (result_cost_usd result) of
                  Inl e \<Rightarrow> Inl (e, db1)
                | Inr db2 \<Rightarrow>
                    (case update_run_usage db2 rid (result_tokens_used result)
                            (result_cost_usd result) of
                       Inl (e, dbk) \<Rightarrow> Inl (e, dbk)
                     | Inr db3 \<Rightarrow> Inr (db3, result)))))"

text \<open>
  What \<^verbatim>\<open>execute\<close> returns: the dictionary with \<^verbatim>\<open>success\<close> true, or the one with the
  error text and the \<^verbatim>\<open>retryable\<close> flag.
\<close>

datatype execution = Succeeded step_result | NotSucceeded string bool

text \<open>
  \<^verbatim>\<open>execute\<close>, started at \<open>start_time\<close> and finished at \<open>completed_at\<close>. It returns
  the committed store and the result; when the handler of the \<^verbatim>\<open>except\<close> branch itself
  raises, the exception leaves \<^verbatim>\<open>execute\<close> and nothing is committed.
\<close>

definition execute ::
  "worker_env \<Rightarrow> worker_db \<Rightarrow> string \<Rightarrow> string \<Rightarrow> string \<Rightarrow> string \<Rightarrow> json \<Rightarrow> int \<Rightarrow> int \<Rightarrow> int \<Rightarrow>
     string + (worker_db \<times> execution)" where
  "execute env db rid sid step_name step_type step_config attempt start_time completed_at =
     (case try_block env db rid sid step_type step_config start_time completed_at of
        Inr (db3, result) \<Rightarrow> Inr (db3, Succeeded result)
      | Inl (e, dbk) \<Rightarrow>
          (let retryable = is_retryable_error e
           in case update_step_status dbk sid
                     (if retryable \<and> attempt < STEP_MAX_RETRIES env then ''retrying'' else ''failed'')
                     None (Some completed_at) (Some (completed_at - start_time)) None (Some e) 0 0 of
                Inl e2 \<Rightarrow> Inl e2
              | Inr db' \<Rightarrow> Inr (db', NotSucceeded e retryable)))"

section \<open>Orchestrator worker: queue messages (\<^verbatim>\<open>sqs_handler.py\<close>)\<close>

text \<open>
  The body of a message after \<^verbatim>\<open>json.loads\<close>: not JSON, JSON that is not an object, or
  an object, of which the six keys of the message format are kept, each at the type
  the format gives it and absent when the key is.
\<close>

record body_fields =
  body_run_id :: "string option"
  body_step_id :: "string option"
  body_step_name :: "string option"
  body_step_type :: "string option"
  body_step_config :: "json option"
  body_attempt :: "int option"

datatype parsed_body = InvalidJSON | NotAnObject | Object body_fields

record sqs_message =
  ReceiptHandle :: string
  MessageId :: string
  Body :: parsed_body

record dlq_message =
  dlq_body :: body_fields
  dlq_reason :: string
  original_message_id :: string

text \<open>
  The main queue holds the messages received and not deleted (a message left there is
  delivered again after the visibility timeout); the dead-letter queue holds what was
  sent to it.
\<close>

record queues =
  main_queue :: "sqs_message list"
  dlq :: "dlq_message list"

definition delete_message :: "worker_env \<Rightarrow> queues \<Rightarrow> string \<Rightarrow> queues" where
  "delete_message env q receipt_handle =
     (if delete_ok env
      then q\<lparr> main_queue := filter (\<lambda>m. ReceiptHandle m \<noteq> receipt_handle) (main_queue q) \<rparr>
      else q)"

text \<open>
  \<^verbatim>\<open>_move_to_dlq\<close>. Without a dead-letter queue the message is only deleted. With one,
  the body is parsed again, extended and sent, and the message deleted; an exception
  on the way (a body that does not parse, a failed send) is logged and ends the move.
\<close>

definition move_to_dlq :: "worker_env \<Rightarrow> queues \<Rightarrow> sqs_message \<Rightarrow> string \<Rightarrow> queues" where
  "move_to_dlq env q message reason =
     (if SQS_DLQ_URL env = [] then delete_message env q (ReceiptHandle message)
      else
        (case Body message of
           Object b \<Rightarrow>
             if send_ok env
             then delete_message env
                    (q\<lparr> dlq := dlq q @ [\<lparr> dlq_body = b, dlq_reason = reason,
                                           original_message_id = MessageId message \<rparr>] \<rparr>)
                    (ReceiptHandle message)
             else q
         | _ \<Rightarrow> q))"

definition required_fields :: "string list" where
  "required_fields = [''run_id'', ''step_id'', ''step_name'', ''step_type'']"

definition has_key :: "body_fields \<Rightarrow> string \<Rightarrow> bool" where
  "has_key b f =
     (if f = ''run_id'' then body_run_id b \<noteq> None
      else if f = ''step_id'' then body_step_id b \<noteq> None
      else if f = ''step_name'' then body_step_name b \<noteq> None
      else if f = ''step_type'' then body_step_type b \<noteq> None
      else if f = ''step_config'' then body_step_config b \<noteq> None
      else if f = ''attempt'' then body_attempt b \<noteq> None
      else False)"

definition missing_fields :: "body_fields \<Rightarrow> string list" where
  "missing_fields b = filter (\<lambda>f. \<not> has_key b f) required_fields"

text \<open>\<^verbatim>\<open>body.get('attempt', 1)\<close> and \<^verbatim>\<open>body.get('step_config', {})\<close>.\<close>

definition attempt_of :: "body_fields \<Rightarrow> int" where
  "attempt_of b = (case body_attempt b of None \<Rightarrow> 1 | Some a \<Rightarrow> a)"

definition step_config_of :: "body_fields \<Rightarrow> json" where
  "step_config_of b = (case body_step_config b of None \<Rightarrow> JObj [] | Some c \<Rightarrow> c)"

text \<open>
  \<^verbatim>\<open>_process_message\<close>, with the times at which the step starts and completes. It
  returns the queues and the relational store. An exception other than a JSON
  decoding error (a body that is not an object, a \<^verbatim>\<open>KeyError\<close> on the body, an
  exception that leaves \<^verbatim>\<open>execute\<close>) is logged and the message is left in the queue.
\<close>

definition process_message ::
  "worker_env \<Rightarrow> queues \<Rightarrow> worker_db \<Rightarrow> sqs_message \<Rightarrow> int \<Rightarrow> int \<Rightarrow> queues \<times> worker_db" where
  "process_message env q db message start_time completed_at =
     (case Body message of
        InvalidJSON \<Rightarrow> (move_to_dlq env q message ''Invalid JSON'', db)
      | NotAnObject \<Rightarrow> (q, db)
      | Object b \<Rightarrow>
          if missing_fields b \<noteq> []
          then (move_to_dlq env q message ''Missing required fields'', db)
          else
            (case (body_run_id b, body_step_id b, body_step_name b, body_step_type b) of
               (Some rid, Some sid, Some step_name, Some step_type) \<Rightarrow>
                 (case execute env db rid sid step_name step_type (step_config_of b)
                         (attempt_of b) start_time completed_at of
                    Inl e \<Rightarrow> (q, db)
                  | Inr (db', Succeeded result) \<Rightarrow>
                      (delete_message env q (ReceiptHandle message), db')
                  | Inr (db', NotSucceeded err retryable) \<Rightarrow>
                      if retryable \<and> attempt_of b < STEP_MAX_RETRIES env
                      then (q, db')
                      else (move_to_dlq env q message err, db'))
             | _ \<Rightarrow> (q, db)))"

section \<open>Concrete inputs\<close>

text \<open>
  Inputs at which the theorems below are evaluated: a request of eight words for
  tenant \<open>t1\<close>, a router over the two providers of the source whose calls all fail
  fast, and a gateway whose only tenant row has the given budget and usage.
\<close>

definition ping_request :: request where
  "ping_request =
     \<lparr> model = ''gpt-3.5-turbo'',
       messages = [\<lparr> role = ''user'', content = ''one two three four five six seven eight'' \<rparr>],
       tenant_id = ''t1'', run_id = None, step_id = None, preferred_provider = None \<rparr>"

definition closed_router :: "unit router" where
  "closed_router =
     \<lparr> providers = [openai, anthropic],
       circuit_breakers = [''openai'', ''anthropic''],
       breaker_call = (\<lambda>w p req. (Inl CircuitBreakerError, w)),
       completion = (\<lambda>w p req. (Inl CircuitBreakerError, w)) \<rparr>"

definition gateway_with :: "int \<Rightarrow> int \<Rightarrow> unit gateway" where
  "gateway_with b u =
     \<lparr> store = Map.empty,
       tenant_rows = [''t1'' \<mapsto> \<lparr> token_budget_monthly = b, token_used_current_month = u,
                                    rate_limit_per_minute = 100 \<rparr>],
       llm_events = [], soft_limit_warnings = [], world = () \<rparr>"

text \<open>
  A store that caches a budget blob for \<open>t1\<close>; and a router whose world is the list
  of providers called, over \<open>openai\<close> and an \<open>anthropic\<close> that also serves the
  alias \<open>gpt-4\<close>, where every call to \<open>anthropic\<close> fails and every other call answers.
\<close>

definition cached_store :: redis where
  "cached_store = [''budget:t1'' \<mapsto> \<lparr> val = Blob 1000 100, expires_at = Some 60 \<rparr>]"

definition anthropic_with_alias :: provider_handle where
  "anthropic_with_alias =
     \<lparr> name = ''anthropic'',
       supported_models = (''gpt-4'', ''claude-3-sonnet-20240229'') # supported_models anthropic \<rparr>"

definition ok_response :: "provider_handle \<Rightarrow> request \<Rightarrow> response" where
  "ok_response p req =
     \<lparr> response_id = ''r1'', response_model = model req, provider = get_name p,
       response_content = ''pong'', finish_reason = ''stop'',
       usage = \<lparr> prompt_tokens = 3, completion_tokens = 1, total_tokens = 4 \<rparr>,
       response_cost_usd = 0, latency_ms = 1, is_fallback = False, attempted_providers = [] \<rparr>"

definition anthropic_down :: "string list call" where
  "anthropic_down w p req =
     (if get_name p = ''anthropic''
      then (Inl (ProviderError ''anthropic'' ''503 Service Unavailable'' None), w @ [get_name p])
      else (Inr (ok_response p req), w @ [get_name p]))"

definition logging_router :: "string list router" where
  "logging_router =
     \<lparr> providers = [openai, anthropic_with_alias],
       circuit_breakers = [''openai'', ''anthropic''],
       breaker_call = anthropic_down,
       completion = anthropic_down \<rparr>"

definition pinned_request :: request where
  "pinned_request = ping_request \<lparr> model := ''gpt-4'', preferred_provider := Some ''anthropic'' \<rparr>"

text \<open>
  A run that has completed; a worker whose gateway call has the given outcome and
  whose queue calls succeed; a store with one step row \<open>s1\<close> of run \<open>r1\<close>; the
  message for that step with the given step type and attempt; a step row as an
  earlier successful delivery left it; and a gateway answer with empty content.
\<close>

definition completed_run :: run_row where
  "completed_run =
     \<lparr> run_tenant_id = ''t1'', run_status = ''completed'', run_error_message = None,
       run_started_at = Some 100, run_completed_at = Some 150, run_duration_seconds = Some 50,
       run_current_step = None, run_tokens_used = 4, run_estimated_cost_usd = 0 \<rparr>"

definition fresh_step :: step_row where
  "fresh_step =
     \<lparr> step_status = ''queued'', step_started_at = None, step_completed_at = None,
       step_duration_seconds = None, step_output_data = None, step_error_message = None,
       step_tokens_used = 0, step_cost_usd = 0 \<rparr>"

definition running_run :: run_row where
  "running_run =
     \<lparr> run_tenant_id = ''t1'', run_status = ''running'', run_error_message = None,
       run_started_at = Some 5, run_completed_at = None, run_duration_seconds = None,
       run_current_step = None, run_tokens_used = 0, run_estimated_cost_usd = 0 \<rparr>"

definition worker_with :: "(string + step_result) \<Rightarrow> worker_env" where
  "worker_with llm_outcome =
     \<lparr> STEP_MAX_RETRIES = 3, SQS_DLQ_URL = ''https://sqs.example/dlq'',
       llm_call = (\<lambda>cfg tenant rid sid. llm_outcome),
       tool_call = (\<lambda>cfg rid sid. Inr (JStr ''done'')),
       send_ok = True, delete_ok = True \<rparr>"

text \<open>The same worker with no dead-letter queue configured, the default of \<^verbatim>\<open>config.py\<close>.\<close>

definition worker_without_dlq :: "(string + step_result) \<Rightarrow> worker_env" where
  "worker_without_dlq llm_outcome = (worker_with llm_outcome)\<lparr> SQS_DLQ_URL := [] \<rparr>"

definition db_with :: "step_row \<Rightarrow> worker_db" where
  "db_with row = \<lparr> steps = [''s1'' \<mapsto> row], run_rows = [''r1'' \<mapsto> running_run] \<rparr>"

definition step_message :: "string \<Rightarrow> int option \<Rightarrow> sqs_message" where
  "step_message step_type attempt =
     \<lparr> ReceiptHandle = ''rh1'', MessageId = ''m1'',
       Body = Object \<lparr> body_run_id = Some ''r1'', body_step_id = Some ''s1'',
                       body_step_name = Some ''step one'', body_step_type = Some step_type,
                       body_step_config = Some (JObj []), body_attempt = attempt \<rparr> \<rparr>"

definition done_step :: step_row where
  "done_step =
     fresh_step\<lparr> step_status := ''success'', step_started_at := Some 1, step_completed_at := Some 3,
                 step_duration_seconds := Some 2, step_output_data := Some (JStr ''first answer''),
                 step_tokens_used := 12, step_cost_usd := 3 / 250000 \<rparr>"

definition empty_answer :: "int \<Rightarrow> string + step_result" where
  "empty_answer tokens =
     Inr \<lparr> result_output = JStr [], result_tokens_used = tokens, result_cost_usd = 0 \<rparr>"

definition queue_of :: "sqs_message \<Rightarrow> queues" where
  "queue_of m = \<lparr> main_queue = [m], dlq = [] \<rparr>"

section \<open>Verification\<close>

subsection \<open>Rounding to a double\<close>

lemma round_half_even_bounds: "\<bar>of_int (round_half_even z) - z\<bar> \<le> 1 / 2"
proof -
  have "of_int \<lfloor>z\<rfloor> \<le> z" "z < of_int \<lfloor>z\<rfloor> + 1"
    by linarith+
  then show ?thesis
    unfolding round_half_even_def Let_def by (auto simp: abs_le_iff)
qed

lemma round_half_even_eqI:
  assumes "of_int m - 1 / 2 < z" "z < of_int m + 1 / 2"
  shows "round_half_even z = m"
proof (cases "of_int m \<le> z")
  case True
  with assms have "\<lfloor>z\<rfloor> = m" by (intro floor_unique) auto
  with assms show ?thesis unfolding round_half_even_def Let_def by auto
next
  case False
  with assms have "\<lfloor>z\<rfloor> = m - 1" by (intro floor_unique) auto
  with assms False show ?thesis unfolding round_half_even_def Let_def by auto
qed

lemma round_half_even_of_int: "round_half_even (of_int m) = m"
  by (rule round_half_even_eqI) simp_all

lemma round_half_even_nonneg:
  assumes "0 \<le> z"
  shows "0 \<le> round_half_even z"
proof -
  from round_half_even_bounds [of z] assms
  have "- 1 < (of_int (round_half_even z) :: rat)"
    by linarith
  then have "(of_int (- 1) :: rat) < of_int (round_half_even z)"
    by simp
  then have "- 1 < round_half_even z" by (simp only: of_int_less_iff)
  then show ?thesis by simp
qed

lemma binade_low:
  assumes "0 < x"
  shows "2 powi binade x \<le> x"
proof (cases "1 \<le> x")
  case True
  then have pos: "0 < \<lfloor>x\<rfloor>" by linarith
  then have b: "1 \<le> bitlen \<lfloor>x\<rfloor>"
    using bitlen_eq_zero_iff [of "\<lfloor>x\<rfloor>"] bitlen_nonneg [of "\<lfloor>x\<rfloor>"] by linarith
  from bitlen_bounds [OF pos] have "(2::int) ^ nat (bitlen \<lfloor>x\<rfloor> - 1) \<le> \<lfloor>x\<rfloor>" by simp
  then have "(of_int ((2::int) ^ nat (bitlen \<lfloor>x\<rfloor> - 1)) :: rat) \<le> of_int \<lfloor>x\<rfloor>"
    by (simp only: of_int_le_iff)
  also have "\<dots> \<le> x" by simp
  finally show ?thesis using True b by (simp add: binade_def power_int_def)
next
  case False
  define c where "c = \<lceil>1 / x\<rceil>"
  from False assms have y: "1 < 1 / x" by simp
  then have c2: "2 \<le> c" unfolding c_def by linarith
  then have pos: "0 < c - 1" by simp
  from bitlen_bounds [OF pos] have "c - 1 < 2 ^ nat (bitlen (c - 1))" by simp
  then have "c \<le> 2 ^ nat (bitlen (c - 1))" by simp
  then have "(of_int c :: rat) \<le> 2 ^ nat (bitlen (c - 1))" by simp
  moreover have "1 / x \<le> of_int c" unfolding c_def by simp
  ultimately have "1 / x \<le> 2 ^ nat (bitlen (c - 1))" by (rule order_trans [rotated])
  then have "1 \<le> 2 ^ nat (bitlen (c - 1)) * x"
    using assms by (simp add: field_simps)
  then have "1 / 2 ^ nat (bitlen (c - 1)) \<le> x"
    by (simp add: field_simps)
  moreover have "(2::rat) powi (- bitlen (c - 1)) = 1 / 2 ^ nat (bitlen (c - 1))"
    using bitlen_nonneg [of "c - 1"] by (simp add: power_int_def field_simps)
  ultimately show ?thesis using False by (simp add: binade_def c_def)
qed

lemma binade_high:
  assumes "0 < x"
  shows "x < 2 powi (binade x + 1)"
proof (cases "1 \<le> x")
  case True
  then have pos: "0 < \<lfloor>x\<rfloor>" by linarith
  from bitlen_bounds [OF pos] have "\<lfloor>x\<rfloor> + 1 \<le> 2 ^ nat (bitlen \<lfloor>x\<rfloor>)" by simp
  then have "(of_int (\<lfloor>x\<rfloor> + 1) :: rat) \<le> of_int (2 ^ nat (bitlen \<lfloor>x\<rfloor>))"
    by (simp only: of_int_le_iff)
  moreover have "x < of_int (\<lfloor>x\<rfloor> + 1)" by simp linarith
  ultimately have "x < 2 ^ nat (bitlen \<lfloor>x\<rfloor>)" by simp
  then show ?thesis using True bitlen_nonneg [of "\<lfloor>x\<rfloor>"] by (simp add: binade_def power_int_def)
next
  case False
  define c where "c = \<lceil>1 / x\<rceil>"
  from False assms have y: "1 < 1 / x" by simp
  then have c2: "2 \<le> c" unfolding c_def by linarith
  then have pos: "0 < c - 1" by simp
  then have b: "1 \<le> bitlen (c - 1)"
    using bitlen_eq_zero_iff [of "c - 1"] bitlen_nonneg [of "c - 1"] by linarith
  from bitlen_bounds [OF pos] have "2 ^ nat (bitlen (c - 1) - 1) \<le> c - 1" by simp
  then have "(of_int (2 ^ nat (bitlen (c - 1) - 1)) :: rat) \<le> of_int (c - 1)"
    by (simp only: of_int_le_iff)
  moreover have "of_int (c - 1) < 1 / x" unfolding c_def by simp linarith
  ultimately have "2 ^ nat (bitlen (c - 1) - 1) < 1 / x" by simp
  then have "2 ^ nat (bitlen (c - 1) - 1) * x < 1"
    using assms by (simp add: field_simps)
  then have "x < 1 / 2 ^ nat (bitlen (c - 1) - 1)"
    by (simp add: field_simps)
  moreover have "(2::rat) powi (- bitlen (c - 1) + 1) = 1 / 2 ^ nat (bitlen (c - 1) - 1)"
    using b by (simp add: power_int_def field_simps)
  ultimately show ?thesis using False by (simp add: binade_def c_def)
qed

lemma binade_eqI:
  assumes "2 powi k \<le> x" "x < 2 powi (k + 1)"
  shows "binade x = k"
proof -
  have "(0::rat) < 2 powi k" by simp
  with assms have pos: "0 < x" by linarith
  have "\<not> k + 1 \<le> binade x"
  proof
    assume "k + 1 \<le> binade x"
    then have "(2::rat) powi (k + 1) \<le> 2 powi binade x"
      by (intro power_int_increasing) auto
    with binade_low [OF pos] assms show False by linarith
  qed
  moreover have "\<not> binade x + 1 \<le> k"
  proof
    assume "binade x + 1 \<le> k"
    then have "(2::rat) powi (binade x + 1) \<le> 2 powi k"
      by (intro power_int_increasing) auto
    with binade_high [OF pos] assms show False by linarith
  qed
  ultimately show ?thesis by linarith
qed

lemma ulp_pos [simp]: "0 < ulp x"
  by (simp add: ulp_def)

lemma ulp_low:
  assumes "0 < x"
  shows "2 ^ 52 * ulp x \<le> x"
proof -
  have "(2::rat) powi binade x = 2 ^ 52 * 2 powi (binade x - 52)"
    using power_int_add [of "2::rat" 52 "binade x - 52"] by simp
  with binade_low [OF assms] show ?thesis by (simp add: ulp_def)
qed

lemma ulp_high:
  assumes "0 < x"
  shows "x < 2 ^ 53 * ulp x"
proof -
  have "(2::rat) powi (binade x + 1) = 2 ^ 53 * 2 powi (binade x - 52)"
    using power_int_add [of "2::rat" 53 "binade x - 52"] by (simp add: add.commute)
  with binade_high [OF assms] show ?thesis by (simp add: ulp_def)
qed

lemma ulp_eqI:
  assumes "2 ^ 52 * 2 powi e \<le> x" "x < 2 ^ 53 * 2 powi e"
  shows "ulp x = 2 powi e"
proof -
  have "(2::rat) powi (e + 52) = 2 ^ 52 * 2 powi e" "(2::rat) powi (e + 52 + 1) = 2 ^ 53 * 2 powi e"
    by (simp_all add: power_int_add)
  with assms have "binade x = e + 52" by (intro binade_eqI) simp_all
  then show ?thesis by (simp add: ulp_def)
qed

lemma float_round_pos:
  assumes "0 < x"
  shows "float_round x = of_int (round_half_even (x / ulp x)) * ulp x"
  using assms by (simp add: float_round_def)

lemma float_round_nonneg:
  assumes "0 \<le> x"
  shows "0 \<le> float_round x"
proof (cases "x = 0")
  case True
  then show ?thesis by (simp add: float_round_def)
next
  case False
  with assms have pos: "0 < x" by simp
  have "0 \<le> x / ulp x" using pos by (simp add: less_imp_le)
  then have "0 \<le> round_half_even (x / ulp x)" by (rule round_half_even_nonneg)
  then show ?thesis using pos by (simp add: float_round_pos less_imp_le)
qed

lemma float_round_eqI:
  assumes "2 ^ 52 * 2 powi e \<le> x" "x < 2 ^ 53 * 2 powi e"
    and "of_int m - 1 / 2 < x / 2 powi e" "x / 2 powi e < of_int m + 1 / 2"
  shows "float_round x = of_int m * 2 powi e"
proof -
  have "(0::rat) < 2 ^ 52 * 2 powi e" by simp
  with assms(1) have pos: "0 < x" by linarith
  from assms(1,2) have "ulp x = 2 powi e" by (rule ulp_eqI)
  with assms(3,4) pos show ?thesis
    by (simp add: float_round_pos round_half_even_eqI)
qed

lemma float_round_eq_divI:
  assumes "2 ^ 52 \<le> x * 2 ^ n" "x * 2 ^ n < 2 ^ 53"
    and "of_int m - 1 / 2 < x * 2 ^ n" "x * 2 ^ n < of_int m + 1 / 2"
  shows "float_round x = of_int m / 2 ^ n"
proof -
  have p: "(2::rat) powi (- int n) = 1 / 2 ^ n"
    by (simp add: power_int_def field_simps)
  have "float_round x = of_int m * 2 powi (- int n)"
    using assms by (intro float_round_eqI) (simp_all add: p field_simps)
  then show ?thesis by (simp add: p)
qed

lemma float_round_of_int:
  assumes "0 \<le> n" "n < 2 ^ 53"
  shows "float_round (of_int n) = of_int n"
proof (cases "n = 0")
  case True
  then show ?thesis by (simp add: float_round_def)
next
  case False
  with assms have pos: "(0::rat) < of_int n" by simp
  define j where "j = 52 - binade (of_int n)"
  have "\<not> 53 \<le> binade (of_int n :: rat)"
  proof
    assume "53 \<le> binade (of_int n :: rat)"
    then have "(2::rat) powi 53 \<le> 2 powi binade (of_int n)"
      by (intro power_int_increasing) auto
    with binade_low [OF pos] have "(2::rat) ^ 53 \<le> of_int n" by simp
    moreover from assms have "(of_int n :: rat) < of_int (2 ^ 53)" by (simp only: of_int_less_iff)
    ultimately show False by simp
  qed
  then have j: "0 \<le> j" by (simp add: j_def)
  have u: "ulp (of_int n) = 1 / 2 ^ nat j"
    using j by (simp add: ulp_def j_def power_int_def field_simps)
  have "of_int n / ulp (of_int n) = (of_int (n * 2 ^ nat j) :: rat)"
    by (simp add: u)
  then have "round_half_even (of_int n / ulp (of_int n)) = n * 2 ^ nat j"
    by (simp only: round_half_even_of_int)
  then show ?thesis using pos by (simp add: float_round_pos u)
qed

lemma float_round_idem:
  assumes "0 \<le> x"
  shows "float_round (float_round x) = float_round x"
proof (cases "x = 0")
  case True
  then show ?thesis by (simp add: float_round_def)
next
  case False
  with assms have pos: "0 < x" by simp
  define e where "e = binade x - 52"
  define m where "m = round_half_even (x / ulp x)"
  have u: "ulp x = 2 powi e" by (simp add: ulp_def e_def)
  have t: "float_round x = of_int m * 2 powi e"
    using pos by (simp add: float_round_pos m_def u)
  have upos: "(0::rat) < 2 powi e" by simp
  from ulp_low [OF pos] ulp_high [OF pos]
  have q: "2 ^ 52 \<le> x / 2 powi e" "x / 2 powi e < 2 ^ 53"
    using upos by (simp_all add: u field_simps)
  from round_half_even_bounds [of "x / 2 powi e"]
  have "of_int m \<le> x / 2 powi e + 1 / 2" "x / 2 powi e - 1 / 2 \<le> of_int m"
    unfolding m_def u by linarith+
  with q have "(of_int (2 ^ 52 - 1) :: rat) < of_int m" "(of_int m :: rat) < of_int (2 ^ 53 + 1)"
    by simp_all
  then have "2 ^ 52 - 1 < m" "m < 2 ^ 53 + 1"
    by (simp_all only: of_int_less_iff)
  then have mb: "2 ^ 52 \<le> m" "m \<le> 2 ^ 53"
    by simp_all
  show ?thesis
  proof (cases "m = 2 ^ 53")
    case True
    have p: "(2::rat) powi (e + 1) = 2 * 2 powi e" by (simp add: power_int_add)
    have "float_round (of_int m * 2 powi e) = of_int (2 ^ 52) * 2 powi (e + 1)"
      using upos by (intro float_round_eqI) (simp_all add: True p)
    then show ?thesis by (simp add: t True p)
  next
    case False
    with mb have "m + 1 \<le> 2 ^ 53" by simp
    then have "(of_int (m + 1) :: rat) \<le> of_int (2 ^ 53)" by (simp only: of_int_le_iff)
    then have lt: "(of_int m :: rat) < 2 ^ 53" by simp
    from mb have "(of_int (2 ^ 52) :: rat) \<le> of_int m" by (simp only: of_int_le_iff)
    then have ge: "(2::rat) ^ 52 \<le> of_int m" by simp
    have "float_round (of_int m * 2 powi e) = of_int m * 2 powi e"
      using upos lt ge by (intro float_round_eqI) simp_all
    then show ?thesis by (simp add: t)
  qed
qed

lemma double_1_3: "float_round (13 / 10) = 5854679515581645 / 2 ^ 52"
  using float_round_eq_divI [where n = 52 and x = "13 / 10" and m = 5854679515581645] by simp

lemma double_0_8: "float_round (4 / 5) = 7205759403792794 / 2 ^ 53"
  using float_round_eq_divI [where n = 53 and x = "4 / 5" and m = 7205759403792794] by simp

lemma float_round_err:
  assumes "0 \<le> x"
  shows "\<bar>float_round x - x\<bar> \<le> x / 2 ^ 53"
proof (cases "x = 0")
  case True
  then show ?thesis by (simp add: float_round_def)
next
  case False
  with assms have pos: "0 < x" by simp
  define m where "m = round_half_even (x / ulp x)"
  have "\<bar>of_int m - x / ulp x\<bar> \<le> 1 / 2"
    unfolding m_def by (rule round_half_even_bounds)
  then have "\<bar>of_int m - x / ulp x\<bar> * ulp x \<le> 1 / 2 * ulp x"
    by (intro mult_right_mono) (simp_all add: less_imp_le)
  moreover have "\<bar>of_int m - x / ulp x\<bar> * ulp x = \<bar>of_int m * ulp x - x\<bar>"
  proof -
    have "\<bar>of_int m - x / ulp x\<bar> * ulp x = \<bar>(of_int m - x / ulp x) * ulp x\<bar>"
      by (simp add: abs_mult less_imp_le)
    also have "(of_int m - x / ulp x) * ulp x = of_int m * ulp x - x"
    proof -
      have "ulp x \<noteq> 0" by (metis less_irrefl ulp_pos)
      then show ?thesis by (simp add: field_simps)
    qed
    finally show ?thesis .
  qed
  ultimately have a: "\<bar>of_int m * ulp x - x\<bar> \<le> 1 / 2 * ulp x"
    by (simp only:)
  from ulp_low [OF pos] have "1 / 2 * ulp x \<le> x / 2 ^ 53" by simp
  with a have "\<bar>of_int m * ulp x - x\<bar> \<le> x / 2 ^ 53" by linarith
  then show ?thesis unfolding float_round_pos [OF pos] m_def .
qed

lemma float_round_small:
  assumes "0 < x" "x * 2 ^ k < 2 ^ 52"
  obtains j m where "k < j" "float_round x = of_int m / 2 ^ j"
    "\<bar>of_int m - x * 2 ^ j\<bar> \<le> 1 / 2" "x * 2 ^ j < 2 ^ 53"
proof -
  define e where "e = binade x - 52"
  have u: "ulp x = 2 powi e" by (simp add: ulp_def e_def)
  have "\<not> - int k \<le> e"
  proof
    assume "- int k \<le> e"
    then have "(2::rat) powi (- int k) \<le> 2 powi e"
      by (intro power_int_increasing) auto
    moreover have "(2::rat) powi (- int k) = 1 / 2 ^ k"
      by (simp add: power_int_def field_simps)
    ultimately have "1 / 2 ^ k \<le> ulp x" by (simp add: u)
    then have "2 ^ 52 * (1 / 2 ^ k) \<le> 2 ^ 52 * ulp x"
      by (intro mult_left_mono) simp_all
    with ulp_low [OF assms(1)] have "2 ^ 52 * (1 / 2 ^ k) \<le> x" by linarith
    then have "2 ^ 52 \<le> x * 2 ^ k" by (simp add: field_simps)
    with assms(2) show False by simp
  qed
  then have neg: "e < - int k" by simp
  define j where "j = nat (- e)"
  from neg have kj: "k < j" by (simp add: j_def)
  have uj: "ulp x = 1 / 2 ^ j"
    using neg by (simp add: u power_int_def j_def field_simps)
  define m where "m = round_half_even (x * 2 ^ j)"
  have "float_round x = of_int m / 2 ^ j"
    using assms(1) by (simp add: float_round_pos uj m_def)
  moreover have "\<bar>of_int m - x * 2 ^ j\<bar> \<le> 1 / 2"
    unfolding m_def by (rule round_half_even_bounds)
  moreover from ulp_high [OF assms(1)] have "x * 2 ^ j < 2 ^ 53"
    by (simp add: uj field_simps)
  ultimately show thesis using kj that by blast
qed

lemma double_1_3': "float_round (13 / 10) = 13 / 10 + 1 / (5 * 2 ^ 52)"
  by (simp add: double_1_3)

lemma double_0_8': "float_round (4 / 5) = 4 / 5 + 1 / (5 * 2 ^ 52)"
  by (simp add: double_0_8)

text \<open>One product \<open>n * 1.3\<close>, truncated.\<close>

lemma floor_product_1_3:
  assumes "0 < n" "n < 2 ^ 48"
  shows "\<lfloor>float_round (of_int n * float_round (13 / 10))\<rfloor> = (13 * n) div 10"
proof -
  define x :: rat where "x = of_int n * float_round (13 / 10)"
  define k where "k = (13 * n) div 10"
  define r where "r = (13 * n) mod 10"
  have n13: "13 * n = 10 * k + r" and r: "0 \<le> r" "r \<le> 9"
    by (simp_all add: k_def r_def)
  have nr: "(of_int n :: rat) < 2 ^ 48"
    using assms(2) by simp
  have npos: "(0::rat) < of_int n" using assms(1) by simp
  have "(of_int (13 * n) :: rat) = of_int (10 * k + r)" by (simp only: n13)
  then have e13: "13 * (of_int n :: rat) = 10 * of_int k + of_int r" by simp
  have rr: "(of_int r :: rat) \<le> 9" "(0::rat) \<le> of_int r" using r by simp_all
  have xeq: "x = of_int k + of_int r / 10 + of_int n / (5 * 2 ^ 52)"
    using e13 by (simp add: x_def double_1_3' field_simps)
  have xpos: "0 < x" using npos by (simp add: x_def double_1_3')
  have xlow: "of_int k \<le> x" using rr npos by (simp add: xeq)
  have xhigh: "x \<le> of_int k + 9 / 10 + 1 / 80"
    using rr nr by (simp add: xeq)
  have kn: "(of_int k :: rat) \<le> 13 / 10 * 2 ^ 48"
    using e13 rr nr by simp
  have "x * 2 ^ 3 < 2 ^ 52"
    using xhigh kn by simp
  with xpos obtain j m where jm: "3 < j" "float_round x = of_int m / 2 ^ j"
    "\<bar>of_int m - x * 2 ^ j\<bar> \<le> 1 / 2"
    by (rule float_round_small)
  have p16: "(16::rat) \<le> 2 ^ j"
    using power_increasing [of 4 j "2::rat"] jm(1) by simp
  have ppos: "(0::rat) < 2 ^ j" by simp
  have "of_int k * 2 ^ j \<le> x * 2 ^ j"
    using xlow by (intro mult_right_mono) simp_all
  with jm(3) have "of_int k * 2 ^ j - 1 < (of_int m :: rat)"
    by linarith
  then have "(of_int (k * 2 ^ j - 1) :: rat) < of_int m"
    by simp
  then have "k * 2 ^ j - 1 < m" by (simp only: of_int_less_iff)
  then have "k * 2 ^ j \<le> m" by simp
  then have "(of_int (k * 2 ^ j) :: rat) \<le> of_int m" by (simp only: of_int_le_iff)
  then have low: "of_int k \<le> float_round x"
    by (simp add: jm(2) field_simps)
  have "of_int m \<le> x * 2 ^ j + 1 / 2" using jm(3) by linarith
  also have "x * 2 ^ j \<le> (of_int k + 9 / 10 + 1 / 80) * 2 ^ j"
    using xhigh by (intro mult_right_mono) simp_all
  finally have "(of_int m :: rat) \<le> (of_int k + 9 / 10 + 1 / 80) * 2 ^ j + 1 / 2" by simp
  moreover have "1 / 2 \<le> 1 / 32 * (2::rat) ^ j" using p16 by simp
  ultimately have "(of_int m :: rat) \<le> (of_int k + 9 / 10 + 1 / 80 + 1 / 32) * 2 ^ j"
    by (simp add: algebra_simps)
  moreover have "(of_int k + 9 / 10 + 1 / 80 + 1 / 32) * 2 ^ j < (of_int k + 1) * (2::rat) ^ j"
    by (intro mult_strict_right_mono) simp_all
  ultimately have "(of_int m :: rat) < (of_int k + 1) * 2 ^ j" by linarith
  then have high: "float_round x < of_int k + 1"
    by (simp add: jm(2) field_simps)
  from low high have "\<lfloor>float_round x\<rfloor> = k" by (intro floor_unique) simp_all
  then show ?thesis by (simp add: x_def k_def)
qed

text \<open>The soft-limit threshold at 80 percent.\<close>

lemma threshold_0_8:
  assumes "0 \<le> b" "b < 2 ^ 50"
  shows "float_round (of_int b * float_round (4 / 5)) \<le> of_int u \<longleftrightarrow> 4 * b \<le> 5 * u"
proof (cases "b = 0")
  case True
  then show ?thesis by (simp add: float_round_def)
next
  case False
  with assms have bpos: "(0::rat) < of_int b" by simp
  have br: "(of_int b :: rat) < 2 ^ 50" using assms(2) by simp
  define x :: rat where "x = of_int b * float_round (4 / 5)"
  have xeq: "x = 4 * of_int b / 5 + of_int b / (5 * 2 ^ 52)"
    by (simp add: x_def double_0_8' field_simps)
  have xpos: "0 < x" using bpos by (simp add: x_def double_0_8')
  have "x * 2 ^ 2 < 2 ^ 52" using br by (simp add: xeq)
  with xpos obtain j m where jm: "2 < j" "float_round x = of_int m / 2 ^ j"
    "\<bar>of_int m - x * 2 ^ j\<bar> \<le> 1 / 2" "x * 2 ^ j < 2 ^ 53"
    by (rule float_round_small)
  have p8: "(8::rat) \<le> 2 ^ j"
    using power_increasing [of 3 j "2::rat"] jm(1) by simp
  have ppos: "(0::rat) < 2 ^ j" by simp
  have tiny: "of_int b / (5 * 2 ^ 52) * 2 ^ j < (1 / 2 :: rat)"
  proof -
    have "4 * of_int b / 5 * 2 ^ j \<le> x * 2 ^ j"
      using bpos by (intro mult_right_mono) (simp_all add: xeq)
    with jm(4) have "4 * of_int b / 5 * 2 ^ j < (2::rat) ^ 53" by linarith
    then show ?thesis by (simp add: field_simps)
  qed
  have thr: "float_round x \<le> of_int u \<longleftrightarrow> m \<le> u * 2 ^ j"
  proof -
    have "float_round x \<le> of_int u \<longleftrightarrow> (of_int m :: rat) \<le> of_int (u * 2 ^ j)"
      by (simp add: jm(2) field_simps)
    then show ?thesis by (simp only: of_int_le_iff)
  qed
  show ?thesis
  proof
    assume "float_round (of_int b * float_round (4 / 5)) \<le> of_int u"
    then have "m \<le> u * 2 ^ j"
      using thr by (simp add: x_def)
    then have mu: "(of_int m :: rat) \<le> of_int (u * 2 ^ j)"
      by (simp only: of_int_le_iff)
    show "4 * b \<le> 5 * u"
    proof (rule ccontr)
      assume "\<not> 4 * b \<le> 5 * u"
      then have "5 * u + 1 \<le> 4 * b" by simp
      then have "(of_int (5 * u + 1) :: rat) \<le> of_int (4 * b)" by (simp only: of_int_le_iff)
      then have "of_int u + 1 / 5 \<le> 4 * (of_int b :: rat) / 5" by simp
      also have "\<dots> \<le> x" using bpos by (simp add: xeq)
      finally have "(of_int u + 1 / 5) * 2 ^ j \<le> x * 2 ^ j"
        by (intro mult_right_mono) simp_all
      moreover have "(8::rat) / 5 \<le> 1 / 5 * 2 ^ j" using p8 by simp
      ultimately have "of_int u * 2 ^ j + 8 / 5 \<le> x * 2 ^ j"
        by (simp add: algebra_simps)
      with jm(3) have "of_int u * 2 ^ j < (of_int m :: rat)" by linarith
      with mu show False by simp
    qed
  next
    assume "4 * b \<le> 5 * u"
    then have "(of_int (4 * b) :: rat) \<le> of_int (5 * u)" by (simp only: of_int_le_iff)
    then have "4 * (of_int b :: rat) / 5 \<le> of_int u" by simp
    then have "4 * of_int b / 5 * 2 ^ j \<le> of_int u * (2::rat) ^ j"
      by (intro mult_right_mono) simp_all
    moreover have "x * 2 ^ j = 4 * of_int b / 5 * 2 ^ j + of_int b / (5 * 2 ^ 52) * 2 ^ j"
      by (simp add: xeq algebra_simps)
    ultimately have "x * 2 ^ j < of_int u * 2 ^ j + 1 / 2"
      using tiny by linarith
    with jm(3) have "(of_int m :: rat) < of_int u * 2 ^ j + 1"
      by linarith
    then have "(of_int m :: rat) < of_int (u * 2 ^ j + 1)"
      by simp
    then have "m < u * 2 ^ j + 1" by (simp only: of_int_less_iff)
    then have "m \<le> u * 2 ^ j" by simp
    with thr show "float_round (of_int b * float_round (4 / 5)) \<le> of_int u"
      by (simp add: x_def)
  qed
qed

subsection \<open>Token estimation\<close>

lemma float_of_int_exact:
  assumes "0 \<le> n" "n < 2 ^ 53"
  shows "float_of_int n = of_int n"
  using assms by (simp add: float_of_int_def float_round_of_int)

lemma foldl_float_add_nonneg:
  "0 \<le> acc \<Longrightarrow> list_all (\<lambda>x. 0 \<le> x) xs \<Longrightarrow> 0 \<le> foldl float_add acc xs"
  by (induction xs arbitrary: acc) (simp_all add: float_add_def float_round_nonneg)

lemma token_sum_nonneg: "0 \<le> token_sum ms"
  unfolding token_sum_def float_sum_def
  by (rule foldl_float_add_nonneg)
     (auto simp add: list_all_iff float_mul_def float_of_int_def
        intro!: float_round_nonneg mult_nonneg_nonneg)

lemma estimated_tokens_floor: "estimated_tokens ms = \<lfloor>token_sum ms\<rfloor>"
  by (simp add: estimated_tokens_def py_int_def token_sum_nonneg)

lemma token_sum_single:
  assumes "length (split_ws (content msg)) < 2 ^ 48"
  shows "token_sum [msg] =
           float_round (of_int (int (length (split_ws (content msg)))) * float_round (13 / 10))"
proof -
  define n where "n = int (length (split_ws (content msg)))"
  have "int (length (split_ws (content msg))) < int (2 ^ 48)"
    using assms by (simp only: of_nat_less_iff)
  then have n: "0 \<le> n" "n < 2 ^ 53" by (simp_all add: n_def)
  have "0 \<le> (of_int n :: rat) * float_round (13 / 10)"
    using n(1) by (intro mult_nonneg_nonneg float_round_nonneg) simp_all
  then have "float_round (float_round (of_int n * float_round (13 / 10)))
               = float_round (of_int n * float_round (13 / 10))"
    by (rule float_round_idem)
  then show ?thesis
    by (simp add: token_sum_def float_sum_def float_add_def float_mul_def
          float_of_int_exact [OF n] flip: n_def)
qed

lemma estimated_tokens_single:
  assumes "length (split_ws (content msg)) < 2 ^ 48"
  shows "estimated_tokens [msg] = (13 * int (length (split_ws (content msg)))) div 10"
proof (cases "length (split_ws (content msg)) = 0")
  case True
  then show ?thesis
    by (simp add: estimated_tokens_floor token_sum_single [OF assms] float_round_def)
next
  case False
  define n where "n = int (length (split_ws (content msg)))"
  have "int (length (split_ws (content msg))) < int (2 ^ 48)"
    using assms by (simp only: of_nat_less_iff)
  with False have "0 < n" "n < 2 ^ 48" by (simp_all add: n_def)
  then have "\<lfloor>float_round (of_int n * float_round (13 / 10))\<rfloor> = (13 * n) div 10"
    by (rule floor_product_1_3)
  then show ?thesis
    by (simp add: estimated_tokens_floor token_sum_single [OF assms] n_def)
qed

lemma floor_numeral_fraction: "\<lfloor>(numeral a :: rat) / numeral b\<rfloor> = numeral a div numeral b"
  by (metis floor_divide_of_int_eq of_int_numeral)

lemma float_round_evalI:
  assumes "2 ^ 52 \<le> x * 2 ^ n" "x * 2 ^ n < 2 ^ 53" "round_half_even (x * 2 ^ n) = m"
  shows "float_round x = of_int m / 2 ^ n"
proof -
  have p: "(2::rat) powi (- int n) = 1 / 2 ^ n"
    by (simp add: power_int_def field_simps)
  have "(0::rat) < 2 ^ 52" by simp
  with assms(1) have "0 < x * 2 ^ n" by linarith
  then have pos: "0 < x" by (simp add: zero_less_mult_iff)
  have "ulp x = 2 powi (- int n)"
    using assms(1,2) by (intro ulp_eqI) (simp_all add: p field_simps)
  with assms(3) pos show ?thesis
    by (simp add: float_round_pos p)
qed

text \<open>
  Ten messages of three words each: the float sum of the ten products stays just
  below 39.
\<close>

lemma token_sum_ten_by_three:
  "token_sum (replicate 10 \<lparr> role = ''user'', content = ''a b c'' \<rparr>)
     = 5488762045857791 / 2 ^ 47"
proof -
  define t :: rat where "t = 2195504818343117 / 2 ^ 49"
  have w: "length (split_ws ''a b c'') = 3"
    by (simp add: split_ws_def is_space_def)
  have "float_round (3 * (5854679515581645 / 2 ^ 52)) = 8782019273372468 / 2 ^ 51"
    using float_round_evalI [where n = 51 and m = 8782019273372468
            and x = "3 * (5854679515581645 / 2 ^ 52)"]
    by (simp add: round_half_even_def Let_def floor_numeral_fraction)
  then have t: "float_mul (float_of_int 3) (float_round (13 / 10)) = t"
    by (simp add: float_mul_def float_of_int_exact double_1_3 t_def)
  have a1: "float_add 0 t = 8782019273372468 / 2 ^ 51"
    unfolding float_add_def t_def
    using float_round_evalI [where n = 51 and m = 8782019273372468 and x = "0 + 2195504818343117 / 2 ^ 49"]
    by (simp add: round_half_even_def Let_def floor_numeral_fraction)
  have a2: "float_add (8782019273372468 / 2 ^ 51) t = 8782019273372468 / 2 ^ 50"
    unfolding float_add_def t_def
    using float_round_evalI [where n = 50 and m = 8782019273372468 and x = "8782019273372468 / 2 ^ 51 + 2195504818343117 / 2 ^ 49"]
    by (simp add: round_half_even_def Let_def floor_numeral_fraction)
  have a3: "float_add (8782019273372468 / 2 ^ 50) t = 6586514455029351 / 2 ^ 49"
    unfolding float_add_def t_def
    using float_round_evalI [where n = 49 and m = 6586514455029351 and x = "8782019273372468 / 2 ^ 50 + 2195504818343117 / 2 ^ 49"]
    by (simp add: round_half_even_def Let_def floor_numeral_fraction)
  have a4: "float_add (6586514455029351 / 2 ^ 49) t = 8782019273372468 / 2 ^ 49"
    unfolding float_add_def t_def
    using float_round_evalI [where n = 49 and m = 8782019273372468 and x = "6586514455029351 / 2 ^ 49 + 2195504818343117 / 2 ^ 49"]
    by (simp add: round_half_even_def Let_def floor_numeral_fraction)
  have a5: "float_add (8782019273372468 / 2 ^ 49) t = 5488762045857792 / 2 ^ 48"
    unfolding float_add_def t_def
    using float_round_evalI [where n = 48 and m = 5488762045857792 and x = "8782019273372468 / 2 ^ 49 + 2195504818343117 / 2 ^ 49"]
    by (simp add: round_half_even_def Let_def floor_numeral_fraction)
  have a6: "float_add (5488762045857792 / 2 ^ 48) t = 6586514455029350 / 2 ^ 48"
    unfolding float_add_def t_def
    using float_round_evalI [where n = 48 and m = 6586514455029350 and x = "5488762045857792 / 2 ^ 48 + 2195504818343117 / 2 ^ 49"]
    by (simp add: round_half_even_def Let_def floor_numeral_fraction)
  have a7: "float_add (6586514455029350 / 2 ^ 48) t = 7684266864200908 / 2 ^ 48"
    unfolding float_add_def t_def
    using float_round_evalI [where n = 48 and m = 7684266864200908 and x = "6586514455029350 / 2 ^ 48 + 2195504818343117 / 2 ^ 49"]
    by (simp add: round_half_even_def Let_def floor_numeral_fraction)
  have a8: "float_add (7684266864200908 / 2 ^ 48) t = 8782019273372466 / 2 ^ 48"
    unfolding float_add_def t_def
    using float_round_evalI [where n = 48 and m = 8782019273372466 and x = "7684266864200908 / 2 ^ 48 + 2195504818343117 / 2 ^ 49"]
    by (simp add: round_half_even_def Let_def floor_numeral_fraction)
  have a9: "float_add (8782019273372466 / 2 ^ 48) t = 4939885841272012 / 2 ^ 47"
    unfolding float_add_def t_def
    using float_round_evalI [where n = 47 and m = 4939885841272012 and x = "8782019273372466 / 2 ^ 48 + 2195504818343117 / 2 ^ 49"]
    by (simp add: round_half_even_def Let_def floor_numeral_fraction)
  have a10: "float_add (4939885841272012 / 2 ^ 47) t = 5488762045857791 / 2 ^ 47"
    unfolding float_add_def t_def
    using float_round_evalI [where n = 47 and m = 5488762045857791 and x = "4939885841272012 / 2 ^ 47 + 2195504818343117 / 2 ^ 49"]
    by (simp add: round_half_even_def Let_def floor_numeral_fraction)
  have "token_sum (replicate 10 \<lparr> role = ''user'', content = ''a b c'' \<rparr>)
          = foldl float_add 0 (replicate 10 t)"
    by (simp add: token_sum_def float_sum_def w t)
  also have "\<dots> = float_add (float_add (float_add (float_add (float_add (float_add (float_add (float_add (float_add (float_add 0 t) t) t) t) t) t) t) t) t) t"
    by (simp add: numeral_eq_Suc)
  also have "\<dots> = 5488762045857791 / 2 ^ 47"
    unfolding a1 a2 a3 a4 a5 a6 a7 a8 a9 a10 ..
  finally show ?thesis .
qed


lemma token_term_err:
  fixes n :: nat
  assumes "n < 2 ^ 53"
  shows "\<bar>float_mul (float_of_int (int n)) (float_round (13 / 10)) - 13 * of_nat n / 10\<bar>
           \<le> of_nat n / 2 ^ 52"
    and "0 \<le> float_mul (float_of_int (int n)) (float_round (13 / 10))"
proof -
  define x :: rat where "x = of_nat n * float_round (13 / 10)"
  have "int n < int (2 ^ 53)" using assms by (simp only: of_nat_less_iff)
  then have "float_of_int (int n) = of_int (int n)"
    by (intro float_of_int_exact) simp_all
  then have fm: "float_mul (float_of_int (int n)) (float_round (13 / 10)) = float_round x"
    by (simp add: float_mul_def x_def)
  have n0: "(0::rat) \<le> of_nat n" by simp
  have xeq: "x = 13 * of_nat n / 10 + of_nat n / (5 * 2 ^ 52)"
    by (simp add: x_def double_1_3' field_simps)
  have x0: "0 \<le> x" using n0 by (simp add: xeq)
  have "x / 2 ^ 53 + of_nat n / (5 * 2 ^ 52) \<le> of_nat n / 2 ^ 52"
    using n0 by (simp add: xeq field_simps)
  moreover from float_round_err [OF x0] have "\<bar>float_round x - x\<bar> \<le> x / 2 ^ 53" .
  moreover have "x - 13 * of_nat n / 10 = of_nat n / (5 * 2 ^ 52)"
    by (simp add: xeq)
  ultimately have "\<bar>float_round x - 13 * of_nat n / 10\<bar> \<le> of_nat n / 2 ^ 52"
    by linarith
  then show "\<bar>float_mul (float_of_int (int n)) (float_round (13 / 10)) - 13 * of_nat n / 10\<bar>
           \<le> of_nat n / 2 ^ 52"
    by (simp only: fm)
  show "0 \<le> float_mul (float_of_int (int n)) (float_round (13 / 10))"
    unfolding fm using x0 by (rule float_round_nonneg)
qed

lemma token_fold_err:
  fixes Wb C :: rat
  assumes C: "C = (2 * Wb + 1) / 2 ^ 53" and Wb: "Wb < 2 ^ 53"
  shows "0 \<le> acc \<Longrightarrow>
         \<bar>acc - 13 * of_nat w / 10\<bar> \<le> of_nat w / 2 ^ 52 + of_nat k * C \<Longrightarrow>
         of_nat (w + word_total ms) \<le> Wb \<Longrightarrow>
         Wb / 2 ^ 52 + of_nat (k + length ms) * C \<le> 1 / 10 \<Longrightarrow>
         \<bar>foldl float_add acc
             (map (\<lambda>msg. float_mul (float_of_int (int (length (split_ws (content msg)))))
                            (float_round (13 / 10))) ms)
            - 13 * of_nat (w + word_total ms) / 10\<bar>
           \<le> of_nat (w + word_total ms) / 2 ^ 52 + of_nat (k + length ms) * C"
proof (induction ms arbitrary: acc w k)
  case Nil
  then show ?case by (simp add: word_total_def)
next
  case (Cons m ms)
  define n where "n = length (split_ws (content m))"
  define t where "t = float_mul (float_of_int (int n)) (float_round (13 / 10))"
  define acc' where "acc' = float_round (acc + t)"
  have wt: "word_total (m # ms) = n + word_total ms"
    by (simp add: word_total_def n_def)
  from Cons.prems(3) have tot: "of_nat w + of_nat n + of_nat (word_total ms) \<le> Wb"
    by (simp add: wt)
  have nn: "(0::rat) \<le> of_nat w" "(0::rat) \<le> of_nat n" "(0::rat) \<le> of_nat (word_total ms)"
    "(0::rat) \<le> of_nat k" "(0::rat) \<le> of_nat (length ms)"
    by simp_all
  from tot nn have wn: "of_nat w + of_nat n \<le> Wb" and nW: "of_nat n \<le> Wb" and wW: "of_nat w \<le> Wb"
    and W0: "0 \<le> Wb"
    by linarith+
  from nW Wb have "(of_nat n :: rat) < 2 ^ 53" by linarith
  then have n53: "n < 2 ^ 53" by simp
  from token_term_err [OF n53]
  have te: "\<bar>t - 13 * of_nat n / 10\<bar> \<le> of_nat n / 2 ^ 52" and t0: "0 \<le> t"
    by (simp_all add: t_def)
  have C0: "0 \<le> C" using W0 by (simp add: C)
  have kC: "0 \<le> of_nat k * C" "0 \<le> of_nat (length ms) * C"
    using C0 by simp_all
  from Cons.prems(4) have p4: "Wb / 2 ^ 52 + (of_nat k * C + C + of_nat (length ms) * C) \<le> 1 / 10"
    by (simp add: algebra_simps)
  have "of_nat w / 2 ^ 52 \<le> Wb / (2 ^ 52 :: rat)"
    using wW by (simp add: divide_right_mono)
  with p4 kC C0 have small: "of_nat w / 2 ^ 52 + of_nat k * C \<le> 1 / 10"
    by linarith
  with Cons.prems(2) have acc_le: "acc \<le> 13 * of_nat w / 10 + 1 / 10"
    by linarith
  have "of_nat n / (2 ^ 52 :: rat) \<le> of_nat n / 10"
    using nn(2) by (simp add: field_simps)
  with te have t_le: "t \<le> 14 * of_nat n / 10"
    by linarith
  from acc_le t_le wn nn have sum_le: "acc + t \<le> 2 * Wb + 1"
    by linarith
  from Cons.prems(1) t0 have sum0: "0 \<le> acc + t" by simp
  from float_round_err [OF sum0] have "\<bar>acc' - (acc + t)\<bar> \<le> (acc + t) / 2 ^ 53"
    by (simp add: acc'_def)
  also have "\<dots> \<le> (2 * Wb + 1) / 2 ^ 53"
    using sum_le by (simp add: divide_right_mono)
  finally have step: "\<bar>acc' - (acc + t)\<bar> \<le> C" by (simp add: C)
  have of1: "(of_nat (w + n) :: rat) = of_nat w + of_nat n"
    and of2: "(of_nat (Suc k) :: rat) * C = of_nat k * C + C"
    by (simp_all add: algebra_simps)
  have d1: "13 * (of_nat w + of_nat n) / 10 = 13 * of_nat w / 10 + 13 * of_nat n / (10 :: rat)"
    by (simp add: field_simps)
  have d2: "(of_nat w + of_nat n) / 2 ^ 52 = of_nat w / 2 ^ 52 + of_nat n / (2 ^ 52 :: rat)"
    by (simp add: add_divide_distrib)
  from step Cons.prems(2) te
  have new: "\<bar>acc' - 13 * of_nat (w + n) / 10\<bar> \<le> of_nat (w + n) / 2 ^ 52 + of_nat (Suc k) * C"
    unfolding of1 of2 d1 d2 by linarith
  have a0: "0 \<le> acc'" unfolding acc'_def using sum0 by (rule float_round_nonneg)
  have p3: "of_nat (w + n + word_total ms) \<le> Wb"
    using tot by simp
  have p4': "Wb / 2 ^ 52 + of_nat (Suc k + length ms) * C \<le> 1 / 10"
    using Cons.prems(4) by simp
  from Cons.IH [OF a0 new p3 p4']
  show ?case
    by (simp add: wt acc'_def t_def n_def float_add_def add.assoc)
qed

lemma estimated_tokens_within_one:
  assumes "10 * (length ms + 1) * (2 * word_total ms + 1) < 2 ^ 53"
  shows "(13 * int (word_total ms)) div 10 - 1 \<le> estimated_tokens ms"
    and "estimated_tokens ms \<le> (13 * int (word_total ms)) div 10"
    and "word_total ms mod 10 \<noteq> 0 \<Longrightarrow> estimated_tokens ms = (13 * int (word_total ms)) div 10"
proof -
  define W where "W = word_total ms"
  define N where "N = length ms"
  define Wb :: rat where "Wb = of_nat W"
  define C :: rat where "C = (2 * Wb + 1) / 2 ^ 53"
  define k where "k = (13 * int W) div 10"
  define r where "r = (13 * int W) mod 10"
  have lt: "(of_nat (10 * (N + 1) * (2 * W + 1)) :: rat) < of_nat (2 ^ 53)"
    using assms unfolding W_def N_def by (simp only: of_nat_less_iff)
  have e1: "(of_nat (10 * (N + 1) * (2 * W + 1)) :: rat) = 10 * ((of_nat N + 1) * (2 * Wb + 1))"
    by (simp add: Wb_def algebra_simps)
  have e2: "(of_nat (2 ^ 53) :: rat) = 2 ^ 53"
    by simp
  have big: "10 * ((of_nat N + 1) * (2 * Wb + 1)) < (2 :: rat) ^ 53"
    using lt unfolding e1 e2 .
  have W0: "0 \<le> Wb" by (simp add: Wb_def)
  have N0: "(0::rat) \<le> of_nat N" by simp
  define P :: rat where "P = (of_nat N + 1) * (2 * Wb + 1)"
  have "1 * (2 * Wb + 1) \<le> (of_nat N + 1) * (2 * Wb + 1)"
    using W0 N0 by (intro mult_right_mono) simp_all
  then have "2 * Wb + 1 \<le> P" by (simp add: P_def)
  moreover from big have "10 * P < 2 ^ 53" by (simp only: P_def)
  ultimately have "Wb < 2 ^ 53" using W0 by linarith
  note fold = token_fold_err [OF C_def this, of 0 0 0 ms]
  have "(of_nat N + 1) * C < 1 / 10"
    using big by (simp add: C_def field_simps)
  moreover have "Wb / 2 ^ 52 \<le> C" using W0 by (simp add: C_def field_simps)
  ultimately have small: "Wb / 2 ^ 52 + of_nat N * C < 1 / 10"
    by (simp add: algebra_simps)
  have err: "\<bar>token_sum ms - 13 * Wb / 10\<bar> \<le> Wb / 2 ^ 52 + of_nat N * C"
    using fold small by (simp add: token_sum_def float_sum_def Wb_def W_def N_def)
  have n13: "13 * int W = 10 * k + r" and r: "0 \<le> r" "r \<le> 9"
    by (simp_all add: k_def r_def)
  have "(of_int (13 * int W) :: rat) = of_int (10 * k + r)" by (simp only: n13)
  then have e13: "13 * Wb = 10 * of_int k + of_int r" by (simp add: Wb_def)
  have rr: "(of_int r :: rat) \<le> 9" "(0::rat) \<le> of_int r" using r by simp_all
  from err small e13 rr have up: "token_sum ms < of_int k + 1" and lo: "of_int k - 1 < token_sum ms"
    by linarith+
  from up have "token_sum ms < of_int (k + 1)" by simp
  then have "\<lfloor>token_sum ms\<rfloor> < k + 1" by (simp only: floor_less_iff)
  then show "estimated_tokens ms \<le> (13 * int (word_total ms)) div 10"
    by (simp add: estimated_tokens_floor k_def W_def)
  from lo have "of_int (k - 1) \<le> token_sum ms" by simp
  then have "k - 1 \<le> \<lfloor>token_sum ms\<rfloor>" by (simp only: le_floor_iff)
  then show "(13 * int (word_total ms)) div 10 - 1 \<le> estimated_tokens ms"
    by (simp add: estimated_tokens_floor k_def W_def)
  assume "word_total ms mod 10 \<noteq> 0"
  then have "int W mod 10 \<noteq> 0" unfolding W_def by presburger
  then have "r \<noteq> 0" unfolding r_def by presburger
  with r have "1 \<le> r" by simp
  then have "(1::rat) \<le> of_int r" by simp
  with err small e13 have "of_int k \<le> token_sum ms" by linarith
  then have "k \<le> \<lfloor>token_sum ms\<rfloor>" by (simp only: le_floor_iff)
  with \<open>\<lfloor>token_sum ms\<rfloor> < k + 1\<close> show "estimated_tokens ms = (13 * int (word_total ms)) div 10"
    by (simp add: estimated_tokens_floor k_def W_def)
qed



subsection \<open>Budget check\<close>

lemma check_limits_allowed: "allowed (check_limits s B U E) = (U + E < B)"
  by (simp add: check_limits_def Let_def not_le)

lemma check_limits_soft:
  "soft_limit_reached (check_limits s B U E) =
     (soft_limit_threshold s B \<le> of_int U \<and> U + E < B)"
  by (simp add: check_limits_def Let_def not_le)

lemma soft_limit_threshold_default:
  assumes "BUDGET_SOFT_LIMIT_PERCENT s = 80" "0 \<le> B" "B < 2 ^ 50"
  shows "soft_limit_threshold s B \<le> of_int U \<longleftrightarrow> 4 * B \<le> 5 * U"
proof -
  from assms(3) have "B < 2 ^ 53" by simp
  with assms(2) have "float_of_int B = of_int B" by (rule float_of_int_exact)
  then have "soft_limit_threshold s B = float_round (of_int B * float_round (4 / 5))"
    by (simp add: soft_limit_threshold_def float_mul_def true_div_def assms(1))
  with threshold_0_8 [OF assms(2,3)] show ?thesis by simp
qed

lemma check_limits_fields:
  "budget_monthly (check_limits s B U E) = B" "used_current_month (check_limits s B U E) = U"
  by (simp_all add: check_limits_def Let_def)

lemma check_budget_reads:
  assumes "BUDGET_CHECK_ENABLED s"
    and "redis_get r now (budget_key t) = Some (Blob B U) \<or>
         (redis_get r now (budget_key t) = None \<and> db t = Some ten \<and>
          token_budget_monthly ten = B \<and> token_used_current_month ten = U)"
  shows "snd (check_budget s r db now t E) = Limits (check_limits s B U E)"
  using assms by (auto simp add: check_budget_def)


lemma est_ping: "estimated_tokens (messages ping_request) = 10"
proof -
  have w: "length (split_ws ''one two three four five six seven eight'') = 8"
    by (simp add: split_ws_def is_space_def)
  show ?thesis
    using estimated_tokens_single
            [of "\<lparr> role = ''user'', content = ''one two three four five six seven eight'' \<rparr>"]
    by (simp add: ping_request_def w)
qed

lemma rate_first:
  "check_rate_limit settings Map.empty 0 ''t1'' None =
     ([''ratelimit:t1'' \<mapsto> \<lparr> val = Counter 1, expires_at = Some 60 \<rparr>],
      Inr (Rate \<lparr> rate_allowed = True, rate_limit = 100, rate_current = 1,
                  rate_remaining = 99, reset_seconds = 60 \<rparr>))"
  by (simp add: check_rate_limit_def settings_def redis_incrby_def redis_expire_def
        rate_key_def live_def Let_def)


subsection \<open>The fast store\<close>

lemma budget_key_neq_counter_key: "budget_key t \<noteq> counter_key t"
  by (simp add: counter_key_def)

lemma increment_usage_other:
  "k \<noteq> counter_key t \<Longrightarrow> fst (increment_usage r now t n) k = r k"
  by (simp add: increment_usage_def redis_incrby_def split: option.splits rvalue.splits)

lemma check_budget_snd_cong:
  "r' (budget_key t) = r (budget_key t) \<Longrightarrow>
   snd (check_budget s r' db now t E) = snd (check_budget s r db now t E)"
  by (simp add: check_budget_def redis_get_def split: option.splits rvalue.splits)

lemma redis_incrby_counter:
  "snd (redis_incrby r now k n) = Inr c \<Longrightarrow>
   redis_get (fst (redis_incrby r now k n)) now k = Some (Counter c) \<and>
   c = (case redis_get r now k of Some (Counter c0) \<Rightarrow> c0 | _ \<Rightarrow> 0) + n"
proof (cases "r k")
  case None
  then show "snd (redis_incrby r now k n) = Inr c \<Longrightarrow> ?thesis"
    by (auto simp add: redis_incrby_def redis_get_def live_def)
next
  case (Some e)
  show "snd (redis_incrby r now k n) = Inr c \<Longrightarrow> ?thesis"
  proof (cases "live e now")
    case True
    assume "snd (redis_incrby r now k n) = Inr c"
    with Some True show ?thesis
      by (cases "val e") (auto simp add: redis_incrby_def redis_get_def live_def)
  next
    case False
    assume "snd (redis_incrby r now k n) = Inr c"
    with Some False show ?thesis
      by (auto simp add: redis_incrby_def redis_get_def live_def)
  qed
qed

lemma increment_usage_counter:
  "snd (increment_usage r now t n) = Inr () \<Longrightarrow>
   redis_get (fst (increment_usage r now t n)) now (counter_key t) =
     Some (Counter ((case redis_get r now (counter_key t) of
                       Some (Counter c) \<Rightarrow> c | _ \<Rightarrow> 0) + n))"
proof -
  assume a: "snd (increment_usage r now t n) = Inr ()"
  obtain r' res where i: "redis_incrby r now (counter_key t) n = (r', res)"
    by (cases "redis_incrby r now (counter_key t) n")
  with a obtain c where c: "res = Inr c"
    by (cases res) (auto simp add: increment_usage_def)
  from i c have "snd (redis_incrby r now (counter_key t) n) = Inr c" by simp
  from redis_incrby_counter[OF this] i c show ?thesis
    by (simp add: increment_usage_def)
qed

text \<open>
  C10. \<^verbatim>\<open>increment_usage\<close> changes no key of the fast store but
  \<open>budget:{tenant}:counter\<close>; in particular the blob under \<open>budget:{tenant}\<close> is
  as before, so a later \<^verbatim>\<open>check_budget\<close> of the tenant returns what it would have
  returned without the increment, and on a cache hit with blob \<open>(B, U)\<close> it computes
  its limits from \<open>U\<close> alone, whatever was added through \<^verbatim>\<open>increment_usage\<close>.
  When the increment succeeds the counter has grown by the tokens used.
\<close>

theorem increment_usage_frame:
  "(k \<noteq> counter_key t \<longrightarrow> fst (increment_usage r now t n) k = r k) \<and>
   fst (increment_usage r now t n) (budget_key t) = r (budget_key t) \<and>
   snd (check_budget s (fst (increment_usage r now t n)) db now' t E) =
     snd (check_budget s r db now' t E) \<and>
   (BUDGET_CHECK_ENABLED s \<and> redis_get r now' (budget_key t) = Some (Blob B U) \<longrightarrow>
      snd (check_budget s (fst (increment_usage r now t n)) db now' t E) =
        Limits (check_limits s B U E) \<and>
      used_current_month (check_limits s B U E) = U) \<and>
   (snd (increment_usage r now t n) = Inr () \<longrightarrow>
      redis_get (fst (increment_usage r now t n)) now (counter_key t) =
        Some (Counter ((case redis_get r now (counter_key t) of
                          Some (Counter c) \<Rightarrow> c | _ \<Rightarrow> 0) + n)))"
proof -
  have frame: "fst (increment_usage r now t n) (budget_key t) = r (budget_key t)"
    by (rule increment_usage_other) (rule budget_key_neq_counter_key)
  have same: "snd (check_budget s (fst (increment_usage r now t n)) db now' t E) =
     snd (check_budget s r db now' t E)"
    by (rule check_budget_snd_cong) (rule frame)
  have hit: "BUDGET_CHECK_ENABLED s \<and> redis_get r now' (budget_key t) = Some (Blob B U) \<longrightarrow>
      snd (check_budget s r db now' t E) = Limits (check_limits s B U E)"
    by (simp add: check_budget_def)
  have used: "used_current_month (check_limits s B U E) = U"
    by (simp add: check_limits_def Let_def)
  have counter: "snd (increment_usage r now t n) = Inr () \<longrightarrow>
      redis_get (fst (increment_usage r now t n)) now (counter_key t) =
        Some (Counter ((case redis_get r now (counter_key t) of
                          Some (Counter c) \<Rightarrow> c | _ \<Rightarrow> 0) + n))"
    using increment_usage_counter by blast
  show ?thesis
    using frame same hit used counter by (simp add: increment_usage_other)
qed

text \<open>
  At a store that caches budget 1000 and usage 100 for \<open>t1\<close>: after 500 tokens are
  added at time 10, the check at time 30 still works with usage 100.
\<close>

theorem increment_usage_frame_witness:
  "fst (increment_usage cached_store 10 ''t1'' 500) (budget_key ''t1'') = cached_store (budget_key ''t1'') \<and>
   redis_get (fst (increment_usage cached_store 10 ''t1'' 500)) 10 (counter_key ''t1'') = Some (Counter 500) \<and>
   snd (check_budget settings (fst (increment_usage cached_store 10 ''t1'' 500)) Map.empty 30 ''t1'' 10)
     = Limits (check_limits settings 1000 100 10) \<and>
   used_current_month (check_limits settings 1000 100 10) = 100"
proof -
  have neq: "''budget:t1'' \<noteq> counter_key ''t1''" by (simp add: counter_key_def budget_key_def)
  have en: "BUDGET_CHECK_ENABLED settings" by (simp add: settings_def)
  have hit: "redis_get cached_store 30 (budget_key ''t1'') = Some (Blob 1000 100)"
    by (simp add: cached_store_def redis_get_def budget_key_def live_def)
  have ok: "snd (increment_usage cached_store 10 ''t1'' 500) = Inr ()"
    by (simp add: increment_usage_def redis_incrby_def cached_store_def counter_key_def budget_key_def)
  have old: "redis_get cached_store 10 (counter_key ''t1'') = None"
    by (simp add: cached_store_def redis_get_def counter_key_def budget_key_def)
  note th = increment_usage_frame [of "''budget:t1''" "''t1''" cached_store 10 500 settings
                 Map.empty 30 10 1000 100]
  from th have a: "fst (increment_usage cached_store 10 ''t1'' 500) (budget_key ''t1'')
                     = cached_store (budget_key ''t1'')" by blast
  from th en hit have b:
    "snd (check_budget settings (fst (increment_usage cached_store 10 ''t1'' 500)) Map.empty 30 ''t1'' 10)
       = Limits (check_limits settings 1000 100 10)"
    "used_current_month (check_limits settings 1000 100 10) = 100" by blast+
  from th ok old have c:
    "redis_get (fst (increment_usage cached_store 10 ''t1'' 500)) 10 (counter_key ''t1'')
       = Some (Counter 500)" by simp
  from a b c show ?thesis by blast
qed

subsection \<open>Rate limiting\<close>

text \<open>
  C4 at a failing input: limit 2 per window of 60 seconds, requests of one tenant at
  times 0, 40 and 80. Every check runs \<^verbatim>\<open>EXPIRE\<close>, so after the second request the
  key is set to expire at time 100 instead of 60 (40 seconds are left at time 60), and
  the third request, 80 seconds after the first, is counted as the third of the window
  and refused.
\<close>

theorem rate_limit_window_extended:
  "let s = settings \<lparr> RATE_LIMIT_REQUESTS_PER_MINUTE := 2 \<rparr>;
       c1 = check_rate_limit s Map.empty 0 ''t1'' None;
       c2 = check_rate_limit s (fst c1) 40 ''t1'' None;
       c3 = check_rate_limit s (fst c2) 80 ''t1'' None
   in ttl_of (fst c1) 0 (rate_key ''t1'') = Some 60 \<and>
      ttl_of (fst c2) 40 (rate_key ''t1'') = Some 60 \<and>
      ttl_of (fst c2) 60 (rate_key ''t1'') = Some 40 \<and>
      snd c3 = Inr (Rate \<lparr> rate_allowed = False, rate_limit = 2, rate_current = 3,
                           rate_remaining = 0, reset_seconds = 60 \<rparr>)"
  by (simp add: check_rate_limit_def settings_def redis_incrby_def redis_expire_def
        rate_key_def live_def ttl_of_def Let_def)

subsection \<open>Routing and the answer to an unsupported model\<close>

lemma lower_lowercase [simp]:
  "lower ''openai'' = ''openai''" "lower ''anthropic'' = ''anthropic''" "lower ''local'' = ''local''"
  by (simp_all add: lower_def lower_char_def)

lemma no_provider_for_llama:
  "get_providers_for_model settings closed_router ''llama-3'' = []"
  by (simp add: get_providers_for_model_def settings_def closed_router_def
        get_provider_by_name_def get_name_def openai_def anthropic_def supports_model_def)

lemma route_llama:
  "route settings closed_router (ping_request \<lparr> model := ''llama-3'' \<rparr>) w =
     (Inl (ModelNotSupportedError ''any'' ''llama-3''), w)"
  by (simp add: route_def preferred_def ping_request_def no_provider_for_llama)

text \<open>
  C6 at a failing input: a request for model \<open>llama-3\<close>, which neither provider
  supports, passes the rate and budget checks and makes \<^verbatim>\<open>route\<close> raise
  \<^verbatim>\<open>ModelNotSupportedError\<close>; no exception handler is registered for it, and the
  answer is the status 500 of an unhandled exception, not 400.
\<close>

theorem unsupported_model_unhandled:
  "fst (create_completion settings closed_router 0 (ping_request \<lparr> model := ''llama-3'' \<rparr>)
          (gateway_with 1000000 0)) = Inl (ModelNotSupportedError ''any'' ''llama-3'') \<and>
   exception_handlers (ModelNotSupportedError ''any'' ''llama-3'') = None \<and>
   status_code (http_answer (Inl (ModelNotSupportedError ''any'' ''llama-3''))) = 500"
proof -
  have rate: "check_rate_limit settings (store (gateway_with 1000000 0)) 0
                (tenant_id (ping_request \<lparr> model := ''llama-3'' \<rparr>)) None
              = ([''ratelimit:t1'' \<mapsto> \<lparr> val = Counter 1, expires_at = Some 60 \<rparr>],
                 Inr (Rate \<lparr> rate_allowed = True, rate_limit = 100, rate_current = 1,
                             rate_remaining = 99, reset_seconds = 60 \<rparr>))"
    using rate_first by (simp add: gateway_with_def ping_request_def)
  have budget: "snd (check_budget settings [''ratelimit:t1'' \<mapsto> \<lparr> val = Counter 1, expires_at = Some 60 \<rparr>]
                  (tenant_rows (gateway_with 1000000 0)) 0 ''t1'' E)
                = Limits (check_limits settings 1000000 0 E)" for E
    by (simp add: check_budget_def settings_def redis_get_def budget_key_def gateway_with_def)
  have est: "estimated_tokens (messages (ping_request \<lparr> model := ''llama-3'' \<rparr>)) = 10"
    using est_ping by simp
  have al: "allowed (check_limits settings 1000000 0 10)"
    by (simp add: check_limits_allowed)
  have tid: "tenant_id (ping_request \<lparr> model := ''llama-3'' \<rparr>) = ''t1''"
    by (simp add: ping_request_def)
  have "fst (create_completion settings closed_router 0 (ping_request \<lparr> model := ''llama-3'' \<rparr>)
          (gateway_with 1000000 0)) = Inl (ModelNotSupportedError ''any'' ''llama-3'')"
  proof -
    obtain r2 where cb:
      "check_budget settings [''ratelimit:t1'' \<mapsto> \<lparr> val = Counter 1, expires_at = Some 60 \<rparr>]
         (tenant_rows (gateway_with 1000000 0)) 0 ''t1'' 10
       = (r2, Limits (check_limits settings 1000000 0 10))"
      using budget[of 10]
      by (cases "check_budget settings [''ratelimit:t1'' \<mapsto> \<lparr> val = Counter 1, expires_at = Some 60 \<rparr>]
         (tenant_rows (gateway_with 1000000 0)) 0 ''t1'' 10") auto
    from rate have rate': "check_rate_limit settings (store (gateway_with 1000000 0)) 0 ''t1'' None
              = ([''ratelimit:t1'' \<mapsto> \<lparr> val = Counter 1, expires_at = Some 60 \<rparr>],
                 Inr (Rate \<lparr> rate_allowed = True, rate_limit = 100, rate_current = 1,
                             rate_remaining = 99, reset_seconds = 60 \<rparr>))"
      by (simp only: tid)
    show ?thesis
      unfolding create_completion_def tid est rate'
      by (simp add: cb al route_llama Let_def)
  qed
  then show ?thesis
    by (simp add: exception_handlers_def http_answer_def)
qed

lemma candidates_gpt4:
  "get_providers_for_model settings logging_router ''gpt-4'' = [openai, anthropic_with_alias]"
  by (simp add: get_providers_for_model_def settings_def logging_router_def
        get_provider_by_name_def get_name_def openai_def anthropic_def anthropic_with_alias_def
        supports_model_def)

lemma preferred_pinned: "preferred logging_router pinned_request = Some anthropic_with_alias"
  by (simp add: preferred_def pinned_request_def ping_request_def logging_router_def
        get_provider_by_name_def get_name_def openai_def anthropic_def anthropic_with_alias_def
        supports_model_def)




subsection \<open>Run status\<close>

text \<open>
  C2 at a failing input: a run that is \<open>completed\<close> and a status update that asks for
  \<open>running\<close>. \<^verbatim>\<open>update_run_status\<close> writes the requested status whatever the
  current one is, so the run leaves its terminal status; \<^verbatim>\<open>cancel_run\<close> on the same
  run is refused with status 400.
\<close>

theorem terminal_run_status_overwritten:
  "update_run_status [''r1'' \<mapsto> completed_run] 200 ''t1'' ''r1''
       \<lparr> update_status = Running, update_error_message = None, update_current_step = None \<rparr>
     = Inr ([''r1'' \<mapsto> completed_run\<lparr> run_status := ''running'' \<rparr>],
            completed_run\<lparr> run_status := ''running'' \<rparr>) \<and>
   cancel_run [''r1'' \<mapsto> completed_run] 200 ''t1'' ''r1''
     = Inl (HTTPException 400 ''Cannot cancel run with status: completed'')"
  by (simp add: update_run_status_def cancel_run_def completed_run_def terminal_statuses_def
        nonempty_def Let_def)

subsection \<open>Queue messages and step execution\<close>

lemma worker_with_sel:
  "STEP_MAX_RETRIES (worker_with x) = 3"
  "SQS_DLQ_URL (worker_with x) = ''https://sqs.example/dlq''"
  "send_ok (worker_with x)"
  "delete_ok (worker_with x)"
  "llm_call (worker_with x) cfg tenant rid sid = x"
  by (simp_all add: worker_with_def)

lemma worker_without_dlq_sel:
  "STEP_MAX_RETRIES (worker_without_dlq x) = 3"
  "SQS_DLQ_URL (worker_without_dlq x) = []"
  "send_ok (worker_without_dlq x)"
  "delete_ok (worker_without_dlq x)"
  "llm_call (worker_without_dlq x) cfg tenant rid sid = x"
  by (simp_all add: worker_without_dlq_def worker_with_def)

lemma missing_fields_empty_iff:
  "missing_fields b = [] \<longleftrightarrow>
     has_key b ''run_id'' \<and> has_key b ''step_id'' \<and> has_key b ''step_name'' \<and> has_key b ''step_type''"
  by (simp add: missing_fields_def required_fields_def)

lemma move_to_dlq_sent:
  assumes "Body m = Object b" "SQS_DLQ_URL env \<noteq> []" "send_ok env"
  shows "dlq (move_to_dlq env q m reason) =
           dlq q @ [\<lparr> dlq_body = b, dlq_reason = reason, original_message_id = MessageId m \<rparr>]"
    and "delete_ok env \<Longrightarrow>
           ReceiptHandle m \<notin> ReceiptHandle ` set (main_queue (move_to_dlq env q m reason))"
  using assms by (auto simp add: move_to_dlq_def delete_message_def)

lemma move_to_dlq_unconfigured:
  assumes "SQS_DLQ_URL env = []"
  shows "dlq (move_to_dlq env q m reason) = dlq q"
    and "delete_ok env \<Longrightarrow>
           ReceiptHandle m \<notin> ReceiptHandle ` set (main_queue (move_to_dlq env q m reason))"
  using assms by (auto simp add: move_to_dlq_def delete_message_def)

lemma move_to_dlq_send_fails:
  assumes "SQS_DLQ_URL env \<noteq> []" "\<not> send_ok env"
  shows "move_to_dlq env q m reason = q"
  using assms by (simp add: move_to_dlq_def split: parsed_body.splits)

lemma retryable_connection_reset: "is_retryable_error ''Connection reset by peer''"
  by (simp add: is_retryable_error_def retryable_patterns_def lower_def lower_char_def char_of_def bit_Suc_0_iff)

lemma invalid_model_not_retryable: "\<not> is_retryable_error ''Invalid model''"
  by (simp add: is_retryable_error_def retryable_patterns_def lower_def lower_char_def char_of_def bit_Suc_0_iff)

lemma type_error_not_retryable: "\<not> is_retryable_error decimal_float_type_error"
  by (simp add: is_retryable_error_def retryable_patterns_def decimal_float_type_error_def
        quoted_def lower_def lower_char_def char_of_def bit_Suc_0_iff)

lemma type_error_nonempty: "decimal_float_type_error \<noteq> []"
  by (simp add: decimal_float_type_error_def)

lemma try_block_llm_fails:
  "try_block (worker_with (Inl e)) (db_with fresh_step) ''r1'' ''s1'' ''llm'' (JObj []) 10 12
     = Inl (e, \<lparr> steps = [''s1'' \<mapsto> fresh_step\<lparr> step_status := ''running'',
                                                  step_started_at := Some 10 \<rparr>],
                  run_rows = [''r1'' \<mapsto> running_run] \<rparr>)"
  by (simp add: try_block_def update_step_status_def dispatch_def db_with_def worker_with_sel
        nonempty_def Let_def)

lemma try_block_decision:
  "try_block env (db_with fresh_step) ''r1'' ''s1'' ''decision'' (JObj []) 10 12
     = Inl (decimal_float_type_error,
            \<lparr> steps = [''s1'' \<mapsto> fresh_step\<lparr> step_status := ''success'', step_started_at := Some 10,
                               step_completed_at := Some 12, step_duration_seconds := Some 2,
                               step_output_data := Some (JObj [(''decision'', JStr ''placeholder'')]) \<rparr>],
              run_rows = [''r1'' \<mapsto> running_run] \<rparr>)"
  by (simp add: try_block_def update_step_status_def update_run_usage_def decimal_iadd_float_def
        dispatch_def db_with_def fresh_step_def running_run_def nonempty_def Let_def)

lemma execute_llm_reset:
  "execute (worker_with (Inl ''Connection reset by peer'')) (db_with fresh_step) ''r1'' ''s1''
      ''step one'' ''llm'' (JObj []) 1 10 12
   = Inr (\<lparr> steps = [''s1'' \<mapsto> fresh_step\<lparr> step_status := ''retrying'', step_started_at := Some 10,
                               step_completed_at := Some 12, step_duration_seconds := Some 2,
                               step_error_message := Some ''Connection reset by peer'' \<rparr>],
            run_rows = [''r1'' \<mapsto> running_run] \<rparr>,
          NotSucceeded ''Connection reset by peer'' True)"
  unfolding execute_def try_block_llm_fails
  by (simp add: retryable_connection_reset update_step_status_def
        worker_with_sel fresh_step_def nonempty_def Let_def)

lemma execute_decision:
  "execute (worker_with x) (db_with fresh_step) ''r1'' ''s1'' ''step one'' ''decision'' (JObj []) 1 10 12
   = Inr (\<lparr> steps = [''s1'' \<mapsto> fresh_step\<lparr> step_status := ''failed'', step_started_at := Some 10,
                               step_completed_at := Some 12, step_duration_seconds := Some 2,
                               step_output_data := Some (JObj [(''decision'', JStr ''placeholder'')]),
                               step_error_message := Some decimal_float_type_error \<rparr>],
            run_rows = [''r1'' \<mapsto> running_run] \<rparr>,
          NotSucceeded decimal_float_type_error False)"
  unfolding execute_def try_block_decision
  by (simp add: type_error_not_retryable type_error_nonempty
        update_step_status_def fresh_step_def nonempty_def Let_def)

text \<open>
  C7, as stated: a message that lacks \<open>attempt\<close> is not executed and goes to the
  dead-letter queue with reason \<open>missing_required_fields\<close>. It is executed: the
  message below has no \<open>attempt\<close> key, its \<open>llm\<close> step is run as attempt 1, the
  gateway call fails with a connection error, the step row is committed as
  \<open>retrying\<close>, the message stays in the main queue and nothing is sent to the
  dead-letter queue. And a message that lacks \<open>run_id\<close> is sent there with the
  reason \<open>Missing required fields\<close>.
\<close>

theorem missing_attempt_counterexample:
  "has_key \<lparr> body_run_id = Some ''r1'', body_step_id = Some ''s1'',
             body_step_name = Some ''step one'', body_step_type = Some ''llm'',
             body_step_config = Some (JObj []), body_attempt = None \<rparr> ''attempt'' = False \<and>
   fst (process_message (worker_with (Inl ''Connection reset by peer''))
          (queue_of (step_message ''llm'' None)) (db_with fresh_step) (step_message ''llm'' None) 10 12)
     = \<lparr> main_queue = [step_message ''llm'' None], dlq = [] \<rparr> \<and>
   steps (snd (process_message (worker_with (Inl ''Connection reset by peer''))
                 (queue_of (step_message ''llm'' None)) (db_with fresh_step)
                 (step_message ''llm'' None) 10 12)) ''s1''
     = Some (fresh_step\<lparr> step_status := ''retrying'', step_started_at := Some 10,
                          step_completed_at := Some 12, step_duration_seconds := Some 2,
                          step_error_message := Some ''Connection reset by peer'' \<rparr>) \<and>
   map dlq_reason
     (dlq (fst (process_message (worker_with (Inl ''Connection reset by peer''))
                  (queue_of (step_message ''llm'' None)) (db_with fresh_step)
                  ((step_message ''llm'' None)
                     \<lparr> Body := Object \<lparr> body_run_id = None, body_step_id = Some ''s1'',
                                        body_step_name = Some ''step one'',
                                        body_step_type = Some ''llm'',
                                        body_step_config = Some (JObj []),
                                        body_attempt = Some 1 \<rparr> \<rparr>) 10 12)))
     = [''Missing required fields'']"
proof -
  have a: "process_message (worker_with (Inl ''Connection reset by peer''))
             (queue_of (step_message ''llm'' None)) (db_with fresh_step) (step_message ''llm'' None) 10 12
           = (queue_of (step_message ''llm'' None),
              \<lparr> steps = [''s1'' \<mapsto> fresh_step\<lparr> step_status := ''retrying'', step_started_at := Some 10,
                               step_completed_at := Some 12, step_duration_seconds := Some 2,
                               step_error_message := Some ''Connection reset by peer'' \<rparr>],
                run_rows = [''r1'' \<mapsto> running_run] \<rparr>)"
    by (simp add: process_message_def step_message_def missing_fields_def required_fields_def
          has_key_def attempt_of_def step_config_of_def execute_llm_reset worker_with_sel)
  show ?thesis
    unfolding a
    by (simp add: has_key_def process_message_def step_message_def missing_fields_def
          required_fields_def move_to_dlq_def delete_message_def queue_of_def worker_with_sel)
qed

text \<open>
  C7, amended: a message whose body lacks one of \<open>run_id\<close>, \<open>step_id\<close>,
  \<open>step_name\<close>, \<open>step_type\<close> is not executed (the relational store is left as it
  was) and is moved to the dead-letter queue with reason \<open>Missing required fields\<close>:
  with a dead-letter queue configured and the send succeeding, its body is appended
  there with that reason and the id of the message, and the message is deleted from
  the main queue. A message that has the four keys is executed, with attempt 1 when it
  has no \<open>attempt\<close> and configuration \<open>{}\<close> when it has no \<open>step_config\<close>.
\<close>

theorem missing_required_field_to_dlq:
  assumes "Body m = Object b"
  shows "(\<not> (has_key b ''run_id'' \<and> has_key b ''step_id'' \<and> has_key b ''step_name'' \<and>
              has_key b ''step_type'') \<longrightarrow>
            snd (process_message env q db m st ct) = db \<and>
            fst (process_message env q db m st ct) = move_to_dlq env q m ''Missing required fields'' \<and>
            (SQS_DLQ_URL env \<noteq> [] \<and> send_ok env \<longrightarrow>
               dlq (fst (process_message env q db m st ct)) =
                 dlq q @ [\<lparr> dlq_body = b, dlq_reason = ''Missing required fields'',
                             original_message_id = MessageId m \<rparr>] \<and>
               (delete_ok env \<longrightarrow>
                  ReceiptHandle m \<notin>
                    ReceiptHandle ` set (main_queue (fst (process_message env q db m st ct)))))) \<and>
         (body_run_id b = Some rid \<and> body_step_id b = Some sid \<and> body_step_name b = Some nm \<and>
            body_step_type b = Some ty \<longrightarrow>
            snd (process_message env q db m st ct) =
              (case execute env db rid sid nm ty
                      (case body_step_config b of None \<Rightarrow> JObj [] | Some c \<Rightarrow> c)
                      (case body_attempt b of None \<Rightarrow> 1 | Some a \<Rightarrow> a) st ct of
                 Inl e \<Rightarrow> db
               | Inr (db', r) \<Rightarrow> db'))"
proof (intro conjI impI)
  assume "\<not> (has_key b ''run_id'' \<and> has_key b ''step_id'' \<and> has_key b ''step_name'' \<and>
              has_key b ''step_type'')"
  then have mf: "missing_fields b \<noteq> []"
    by (simp only: missing_fields_empty_iff not_False_eq_True)
  have pm: "process_message env q db m st ct = (move_to_dlq env q m ''Missing required fields'', db)"
    using assms mf by (simp add: process_message_def)
  show "snd (process_message env q db m st ct) = db" by (simp add: pm)
  show "fst (process_message env q db m st ct) = move_to_dlq env q m ''Missing required fields''"
    by (simp add: pm)
  assume cfg: "SQS_DLQ_URL env \<noteq> [] \<and> send_ok env"
  then show "dlq (fst (process_message env q db m st ct)) =
                 dlq q @ [\<lparr> dlq_body = b, dlq_reason = ''Missing required fields'',
                             original_message_id = MessageId m \<rparr>]"
    using move_to_dlq_sent(1)[OF assms] by (simp add: pm)
  assume "delete_ok env"
  with cfg show "ReceiptHandle m \<notin>
                    ReceiptHandle ` set (main_queue (fst (process_message env q db m st ct)))"
    using move_to_dlq_sent(2)[OF assms, of env q "''Missing required fields''"] by (simp add: pm)
next
  assume ids: "body_run_id b = Some rid \<and> body_step_id b = Some sid \<and> body_step_name b = Some nm \<and>
            body_step_type b = Some ty"
  then have mf: "missing_fields b = []"
    by (simp add: missing_fields_empty_iff has_key_def)
  show "snd (process_message env q db m st ct) =
              (case execute env db rid sid nm ty
                      (case body_step_config b of None \<Rightarrow> JObj [] | Some c \<Rightarrow> c)
                      (case body_attempt b of None \<Rightarrow> 1 | Some a \<Rightarrow> a) st ct of
                 Inl e \<Rightarrow> db
               | Inr (db', r) \<Rightarrow> db')"
    using assms mf ids
    by (auto simp add: process_message_def attempt_of_def step_config_of_def
          split: sum.splits prod.splits execution.splits)
qed

text \<open>
  At a message without \<open>run_id\<close>, and at one without \<open>attempt\<close> whose \<open>llm\<close> step
  fails with a connection error at attempt 1.
\<close>

theorem missing_required_field_to_dlq_witness:
  "snd (process_message (worker_with (Inl ''Connection reset by peer'')) (queue_of (step_message ''llm'' None))
          (db_with fresh_step)
          ((step_message ''llm'' None)
             \<lparr> Body := Object \<lparr> body_run_id = None, body_step_id = Some ''s1'',
                                body_step_name = Some ''step one'',
                                body_step_type = Some ''llm'',
                                body_step_config = Some (JObj []),
                                body_attempt = Some 1 \<rparr> \<rparr>) 10 12) = db_with fresh_step \<and>
   map original_message_id
     (dlq (fst (process_message (worker_with (Inl ''Connection reset by peer'')) (queue_of (step_message ''llm'' None))
          (db_with fresh_step)
          ((step_message ''llm'' None)
             \<lparr> Body := Object \<lparr> body_run_id = None, body_step_id = Some ''s1'',
                                body_step_name = Some ''step one'',
                                body_step_type = Some ''llm'',
                                body_step_config = Some (JObj []),
                                body_attempt = Some 1 \<rparr> \<rparr>) 10 12))) = [''m1''] \<and>
   map_option step_status
     (steps (snd (process_message (worker_with (Inl ''Connection reset by peer'')) (queue_of (step_message ''llm'' None))
                    (db_with fresh_step) (step_message ''llm'' None) 10 12)) ''s1'')
     = Some ''retrying''"
proof -
  let ?W = "worker_with (Inl ''Connection reset by peer'')"
  let ?b = "\<lparr> body_run_id = None, body_step_id = Some ''s1'',
                                body_step_name = Some ''step one'',
                                body_step_type = Some ''llm'',
                                body_step_config = Some (JObj []),
                                body_attempt = Some 1 \<rparr>"
  let ?m = "(step_message ''llm'' None) \<lparr> Body := Object ?b \<rparr>"
  let ?c = "\<lparr> body_run_id = Some ''r1'', body_step_id = Some ''s1'',
             body_step_name = Some ''step one'', body_step_type = Some ''llm'',
             body_step_config = Some (JObj []), body_attempt = None \<rparr>"
  have h1: "Body ?m = Object ?b" by simp
  have h2: "\<not> (has_key ?b ''run_id'' \<and> has_key ?b ''step_id'' \<and> has_key ?b ''step_name'' \<and>
            has_key ?b ''step_type'')"
    by (simp add: has_key_def)
  have h3: "SQS_DLQ_URL ?W \<noteq> [] \<and> send_ok ?W"
    by (simp add: worker_with_sel)
  have h4: "MessageId ?m = ''m1''" by (simp add: step_message_def)
  note th = missing_required_field_to_dlq [OF h1, of ?W "queue_of (step_message ''llm'' None)"
         "db_with fresh_step" 10 12]
  from th h2 have a: "snd (process_message ?W (queue_of (step_message ''llm'' None))
                  (db_with fresh_step) ?m 10 12) = db_with fresh_step"
    by blast
  from th h2 h3 have "dlq (fst (process_message ?W (queue_of (step_message ''llm'' None))
                           (db_with fresh_step) ?m 10 12))
        = dlq (queue_of (step_message ''llm'' None)) @
            [\<lparr> dlq_body = ?b, dlq_reason = ''Missing required fields'',
               original_message_id = MessageId ?m \<rparr>]"
    by blast
  then have b: "map original_message_id
              (dlq (fst (process_message ?W (queue_of (step_message ''llm'' None))
                           (db_with fresh_step) ?m 10 12))) = [''m1'']"
    by (simp add: queue_of_def h4)
  have k1: "Body (step_message ''llm'' None) = Object ?c" by (simp add: step_message_def)
  have k2: "body_run_id ?c = Some ''r1'' \<and> body_step_id ?c = Some ''s1'' \<and>
            body_step_name ?c = Some ''step one'' \<and> body_step_type ?c = Some ''llm''"
    by simp
  from missing_required_field_to_dlq [OF k1, of ?W "queue_of (step_message ''llm'' None)"
         "db_with fresh_step" 10 12 "''r1''" "''s1''" "''step one''" "''llm''"] k2
  have "snd (process_message ?W (queue_of (step_message ''llm'' None))
                    (db_with fresh_step) (step_message ''llm'' None) 10 12)
        = (case execute ?W (db_with fresh_step) ''r1'' ''s1'' ''step one'' ''llm'' (JObj []) 1 10 12 of
             Inl e \<Rightarrow> db_with fresh_step | Inr (db', r) \<Rightarrow> db')"
    by simp
  then have c: "map_option step_status
     (steps (snd (process_message ?W (queue_of (step_message ''llm'' None))
                    (db_with fresh_step) (step_message ''llm'' None) 10 12)) ''s1'')
     = Some ''retrying''"
    by (simp add: execute_llm_reset)
  from a b c show ?thesis by simp
qed

lemma is_retryable_nonempty: "is_retryable_error e \<Longrightarrow> e \<noteq> []"
  by (auto simp add: is_retryable_error_def retryable_patterns_def lower_def)

lemma update_step_status_row:
  assumes "steps db sid = Some row"
  shows "\<exists>db' row'. update_step_status db sid st a b c d e f g = Inr db' \<and>
           steps db' sid = Some row' \<and> step_status row' = st \<and>
           (nonempty e \<longrightarrow> step_error_message row' = e) \<and>
           run_rows db' = run_rows db"
  using assms by (simp add: update_step_status_def Let_def)

lemma update_step_status_keeps:
  "update_step_status db sid st a b c d e f g = Inr db' \<Longrightarrow> steps db' sid \<noteq> None"
  by (auto simp add: update_step_status_def Let_def split: option.splits)

lemma update_run_usage_steps:
  "update_run_usage db rid t c = Inl (e, dbk) \<Longrightarrow> steps dbk = steps db"
  by (auto simp add: update_run_usage_def Let_def split: option.splits sum.splits)

lemma try_block_keeps_row:
  assumes "try_block env db rid sid ty cfg st ct = Inl (e, dbk)"
    and "steps db sid = Some row"
  shows "steps dbk sid \<noteq> None"
proof -
  obtain db1 where u1:
    "update_step_status db sid ''running'' (Some st) None None None None 0 0 = Inr db1"
    and k1: "steps db1 sid \<noteq> None"
    using update_step_status_row[OF assms(2), of "''running''" "Some st" None None None None 0 0]
    by auto
  show ?thesis
  proof (cases "dispatch env db1 rid sid ty cfg")
    case (Inl e1)
    with assms(1) u1 have "dbk = db1" by (simp add: try_block_def)
    with k1 show ?thesis by simp
  next
    case (Inr result)
    show ?thesis
    proof (cases "update_step_status db1 sid ''success'' None (Some ct) (Some (ct - st))
                    (Some (result_output result)) None (result_tokens_used result)
                    (result_cost_usd result)")
      case (Inl e2)
      with assms(1) u1 Inr have "dbk = db1" by (simp add: try_block_def)
      with k1 show ?thesis by simp
    next
      case u2: (Inr db2)
      then have k2: "steps db2 sid \<noteq> None" by (rule update_step_status_keeps)
      show ?thesis
      proof (cases "update_run_usage db2 rid (result_tokens_used result) (result_cost_usd result)")
        case (Inl p)
        obtain e3 db3 where p: "p = (e3, db3)" by (cases p)
        with assms(1) u1 Inr u2 Inl have "dbk = db3" by (simp add: try_block_def)
        moreover from Inl p have "steps db3 = steps db2" by (simp add: update_run_usage_steps)
        ultimately show ?thesis using k2 by simp
      next
        case (Inr db3)
        with assms(1) u1 \<open>dispatch env db1 rid sid ty cfg = Inr result\<close> u2
        show ?thesis by (simp add: try_block_def)
      qed
    qed
  qed
qed

text \<open>
  C8, as stated: a failure that is not retried moves the message to the dead-letter
  queue with the failure reason. With no dead-letter queue configured, which is the
  default (\<^verbatim>\<open>SQS_DLQ_URL\<close> is the empty string), it does not: the \<open>llm\<close> step below
  fails with an error that is not retryable, the step row is committed as \<open>failed\<close>,
  and the message is deleted from the main queue and sent nowhere.
\<close>

theorem failed_step_without_dlq_counterexample:
  "SQS_DLQ_URL (worker_without_dlq (Inl ''Invalid model'')) = [] \<and>
   is_retryable_error ''Invalid model'' = False \<and>
   map_option step_status
     (steps (snd (process_message (worker_without_dlq (Inl ''Invalid model''))
                    (queue_of (step_message ''llm'' (Some 1))) (db_with fresh_step)
                    (step_message ''llm'' (Some 1)) 10 12)) ''s1'') = Some ''failed'' \<and>
   fst (process_message (worker_without_dlq (Inl ''Invalid model''))
          (queue_of (step_message ''llm'' (Some 1))) (db_with fresh_step)
          (step_message ''llm'' (Some 1)) 10 12) = \<lparr> main_queue = [], dlq = [] \<rparr>"
  by (simp add: process_message_def step_message_def missing_fields_def required_fields_def
        has_key_def attempt_of_def step_config_of_def execute_def try_block_def dispatch_def
        update_step_status_def invalid_model_not_retryable move_to_dlq_def delete_message_def
        queue_of_def db_with_def fresh_step_def worker_without_dlq_sel nonempty_def Let_def)

text \<open>
  C8, amended. For a message with the four required keys whose step row exists and
  whose execution raises an error \<open>e\<close> (in the step's body, or after it in the
  updates of the step and the run): when \<open>e\<close> is retryable and the attempt is below
  \<^verbatim>\<open>STEP_MAX_RETRIES\<close>, the committed step row has status \<open>retrying\<close> and error
  message \<open>e\<close>, and the queues are untouched, the message still in the main queue;
  otherwise the row has status \<open>failed\<close> and the message is handed to
  \<^verbatim>\<open>_move_to_dlq\<close> with reason \<open>e\<close>: with a dead-letter queue configured and the
  send succeeding it is appended there with that reason and deleted from the main
  queue; with no dead-letter queue configured it is only deleted from the main queue;
  and when the send fails the queues are left as they were.
\<close>

theorem failed_step_retry_or_dlq:
  assumes body: "Body m = Object b"
    and ids: "body_run_id b = Some rid" "body_step_id b = Some sid"
             "body_step_name b = Some nm" "body_step_type b = Some ty"
    and row: "steps db sid = Some row"
    and fails: "try_block env db rid sid ty (step_config_of b) st ct = Inl (e, dbk)"
    and res: "process_message env q db m st ct = (q', db')"
  shows "(is_retryable_error e \<and> attempt_of b < STEP_MAX_RETRIES env \<longrightarrow>
            map_option step_status (steps db' sid) = Some ''retrying'' \<and>
            map_option step_error_message (steps db' sid) = Some (Some e) \<and>
            q' = q) \<and>
         (\<not> (is_retryable_error e \<and> attempt_of b < STEP_MAX_RETRIES env) \<longrightarrow>
            map_option step_status (steps db' sid) = Some ''failed'' \<and>
            q' = move_to_dlq env q m e \<and>
            (SQS_DLQ_URL env \<noteq> [] \<and> send_ok env \<longrightarrow>
               dlq q' = dlq q @ [\<lparr> dlq_body = b, dlq_reason = e,
                                    original_message_id = MessageId m \<rparr>] \<and>
               (delete_ok env \<longrightarrow> ReceiptHandle m \<notin> ReceiptHandle ` set (main_queue q'))) \<and>
            (SQS_DLQ_URL env = [] \<longrightarrow>
               dlq q' = dlq q \<and>
               (delete_ok env \<longrightarrow> ReceiptHandle m \<notin> ReceiptHandle ` set (main_queue q'))) \<and>
            (SQS_DLQ_URL env \<noteq> [] \<and> \<not> send_ok env \<longrightarrow> q' = q))"
proof -
  let ?status = "if is_retryable_error e \<and> attempt_of b < STEP_MAX_RETRIES env
                 then ''retrying'' else ''failed''"
  from try_block_keeps_row[OF fails row] obtain rowk where rk: "steps dbk sid = Some rowk"
    by auto
  from update_step_status_row[OF rk, of ?status None "Some ct" "Some (ct - st)" None "Some e" 0 0]
  obtain dbf rowf where
    upd: "update_step_status dbk sid ?status None (Some ct) (Some (ct - st)) None (Some e) 0 0 = Inr dbf"
    and rf: "steps dbf sid = Some rowf" and stf: "step_status rowf = ?status"
    and erf: "nonempty (Some e) \<longrightarrow> step_error_message rowf = Some e"
    by blast
  have ex: "execute env db rid sid nm ty (step_config_of b) (attempt_of b) st ct
              = Inr (dbf, NotSucceeded e (is_retryable_error e))"
    using fails upd by (simp add: execute_def Let_def)
  have mf: "missing_fields b = []"
    using ids by (simp add: missing_fields_empty_iff has_key_def)
  have pm: "process_message env q db m st ct =
              (if is_retryable_error e \<and> attempt_of b < STEP_MAX_RETRIES env
               then (q, dbf) else (move_to_dlq env q m e, dbf))"
    using body mf ids ex by (simp add: process_message_def)
  show ?thesis
  proof (cases "is_retryable_error e \<and> attempt_of b < STEP_MAX_RETRIES env")
    case True
    then have "e \<noteq> []" using is_retryable_nonempty by blast
    with erf have "step_error_message rowf = Some e" by (simp add: nonempty_def)
    with True pm res rf stf show ?thesis by auto
  next
    case False
    with pm res have q': "q' = move_to_dlq env q m e" and d': "db' = dbf" by auto
    from False stf have "step_status rowf = ''failed''" by simp
    with False q' d' rf move_to_dlq_sent[OF body, of env q e]
      move_to_dlq_unconfigured[where env = env and q = q and m = m and reason = e]
      move_to_dlq_send_fails[where env = env and q = q and m = m and reason = e]
    show ?thesis by auto
  qed
qed

text \<open>
  At an \<open>llm\<close> step whose gateway call raises a connection reset: retried at
  attempt 1, failed and sent to the dead-letter queue at attempt 3. At a \<open>decision\<close>
  step, whose body returns and whose run update then raises: failed and sent to the
  dead-letter queue with the text of that exception. And at a worker with no
  dead-letter queue: failed and deleted.
\<close>

theorem failed_step_retry_or_dlq_witness:
  "map_option step_status
     (steps (snd (process_message (worker_with (Inl ''Connection reset by peer''))
                    (queue_of (step_message ''llm'' (Some 1))) (db_with fresh_step)
                    (step_message ''llm'' (Some 1)) 10 12)) ''s1'') = Some ''retrying'' \<and>
   fst (process_message (worker_with (Inl ''Connection reset by peer''))
          (queue_of (step_message ''llm'' (Some 1))) (db_with fresh_step)
          (step_message ''llm'' (Some 1)) 10 12) = queue_of (step_message ''llm'' (Some 1)) \<and>
   map_option step_status
     (steps (snd (process_message (worker_with (Inl ''Connection reset by peer''))
                    (queue_of (step_message ''llm'' (Some 3))) (db_with fresh_step)
                    (step_message ''llm'' (Some 3)) 10 12)) ''s1'') = Some ''failed'' \<and>
   map dlq_reason
     (dlq (fst (process_message (worker_with (Inl ''Connection reset by peer''))
                  (queue_of (step_message ''llm'' (Some 3))) (db_with fresh_step)
                  (step_message ''llm'' (Some 3)) 10 12))) = [''Connection reset by peer''] \<and>
   map_option step_status
     (steps (snd (process_message (worker_with (Inl ''unused''))
                    (queue_of (step_message ''decision'' (Some 1))) (db_with fresh_step)
                    (step_message ''decision'' (Some 1)) 10 12)) ''s1'') = Some ''failed'' \<and>
   map dlq_reason
     (dlq (fst (process_message (worker_with (Inl ''unused''))
                  (queue_of (step_message ''decision'' (Some 1))) (db_with fresh_step)
                  (step_message ''decision'' (Some 1)) 10 12))) = [decimal_float_type_error] \<and>
   dlq (fst (process_message (worker_without_dlq (Inl ''Connection reset by peer''))
               (queue_of (step_message ''llm'' (Some 3))) (db_with fresh_step)
               (step_message ''llm'' (Some 3)) 10 12)) = []"
proof -
  let ?W = "worker_with (Inl ''Connection reset by peer'')"
  let ?V = "worker_without_dlq (Inl ''Connection reset by peer'')"
  let ?D = "worker_with (Inl ''unused'')"
  let ?b = "\<lambda>ty a. \<lparr> body_run_id = Some ''r1'', body_step_id = Some ''s1'',
                   body_step_name = Some ''step one'', body_step_type = Some ty,
                   body_step_config = Some (JObj []), body_attempt = Some a \<rparr>"
  have body: "Body (step_message ty (Some a)) = Object (?b ty a)" for ty a
    by (simp add: step_message_def)
  have row: "steps (db_with fresh_step) ''s1'' = Some fresh_step"
    by (simp add: db_with_def)
  have fails: "try_block ?W (db_with fresh_step) ''r1'' ''s1'' ''llm'' (step_config_of (?b ''llm'' a)) 10 12
     = Inl (''Connection reset by peer'',
            \<lparr> steps = [''s1'' \<mapsto> fresh_step\<lparr> step_status := ''running'',
                                                step_started_at := Some 10 \<rparr>],
              run_rows = [''r1'' \<mapsto> running_run] \<rparr>)" for a
    using try_block_llm_fails by (simp add: step_config_of_def)
  have fails_v: "try_block ?V (db_with fresh_step) ''r1'' ''s1'' ''llm'' (step_config_of (?b ''llm'' a)) 10 12
     = Inl (''Connection reset by peer'',
            \<lparr> steps = [''s1'' \<mapsto> fresh_step\<lparr> step_status := ''running'',
                                                step_started_at := Some 10 \<rparr>],
              run_rows = [''r1'' \<mapsto> running_run] \<rparr>)" for a
    by (simp add: try_block_def update_step_status_def dispatch_def db_with_def
          worker_without_dlq_sel step_config_of_def nonempty_def Let_def)
  have fails_d: "try_block ?D (db_with fresh_step) ''r1'' ''s1'' ''decision''
                   (step_config_of (?b ''decision'' a)) 10 12
     = Inl (decimal_float_type_error,
            \<lparr> steps = [''s1'' \<mapsto> fresh_step\<lparr> step_status := ''success'', step_started_at := Some 10,
                               step_completed_at := Some 12, step_duration_seconds := Some 2,
                               step_output_data := Some (JObj [(''decision'', JStr ''placeholder'')]) \<rparr>],
              run_rows = [''r1'' \<mapsto> running_run] \<rparr>)" for a
    using try_block_decision by (simp add: step_config_of_def)
  have res: "process_message env (queue_of (step_message ty (Some a))) (db_with fresh_step)
               (step_message ty (Some a)) 10 12
             = (fst (process_message env (queue_of (step_message ty (Some a))) (db_with fresh_step)
                       (step_message ty (Some a)) 10 12),
                snd (process_message env (queue_of (step_message ty (Some a))) (db_with fresh_step)
                       (step_message ty (Some a)) 10 12))" for env ty a
    by simp
  have ids: "body_run_id (?b ty a) = Some ''r1''" "body_step_id (?b ty a) = Some ''s1''"
    "body_step_name (?b ty a) = Some ''step one''" "body_step_type (?b ty a) = Some ty" for ty a
    by simp_all
  note one = failed_step_retry_or_dlq [OF body ids row fails res, of 1]
  note three = failed_step_retry_or_dlq [OF body ids row fails res, of 3]
  note dec = failed_step_retry_or_dlq [OF body ids row fails_d res, of 1]
  note nodlq = failed_step_retry_or_dlq [OF body ids row fails_v res, of 3]
  have a1: "attempt_of (?b ''llm'' 1) < STEP_MAX_RETRIES ?W" "\<not> attempt_of (?b ''llm'' 3) < STEP_MAX_RETRIES ?W"
    "\<not> attempt_of (?b ''llm'' 3) < STEP_MAX_RETRIES ?V"
    by (simp_all add: attempt_of_def worker_with_sel worker_without_dlq_sel)
  have cfg: "SQS_DLQ_URL ?W \<noteq> [] \<and> send_ok ?W" "SQS_DLQ_URL ?D \<noteq> [] \<and> send_ok ?D"
    "SQS_DLQ_URL ?V = []"
    by (simp_all add: worker_with_sel worker_without_dlq_sel)
  from one a1 retryable_connection_reset
  have r1: "map_option step_status
     (steps (snd (process_message ?W (queue_of (step_message ''llm'' (Some 1))) (db_with fresh_step)
                    (step_message ''llm'' (Some 1)) 10 12)) ''s1'') = Some ''retrying''"
    and r2: "fst (process_message ?W (queue_of (step_message ''llm'' (Some 1))) (db_with fresh_step)
          (step_message ''llm'' (Some 1)) 10 12) = queue_of (step_message ''llm'' (Some 1))"
    by simp_all
  from three a1 cfg
  have r3: "map_option step_status
     (steps (snd (process_message ?W (queue_of (step_message ''llm'' (Some 3))) (db_with fresh_step)
                    (step_message ''llm'' (Some 3)) 10 12)) ''s1'') = Some ''failed''"
    and r4: "dlq (fst (process_message ?W (queue_of (step_message ''llm'' (Some 3))) (db_with fresh_step)
                  (step_message ''llm'' (Some 3)) 10 12))
             = dlq (queue_of (step_message ''llm'' (Some 3))) @
               [\<lparr> dlq_body = ?b ''llm'' 3, dlq_reason = ''Connection reset by peer'',
                  original_message_id = MessageId (step_message ''llm'' (Some 3)) \<rparr>]"
    by blast+
  from dec type_error_not_retryable cfg
  have r5: "map_option step_status
     (steps (snd (process_message ?D (queue_of (step_message ''decision'' (Some 1))) (db_with fresh_step)
                    (step_message ''decision'' (Some 1)) 10 12)) ''s1'') = Some ''failed''"
    and r6: "dlq (fst (process_message ?D (queue_of (step_message ''decision'' (Some 1))) (db_with fresh_step)
                  (step_message ''decision'' (Some 1)) 10 12))
             = dlq (queue_of (step_message ''decision'' (Some 1))) @
               [\<lparr> dlq_body = ?b ''decision'' 1, dlq_reason = decimal_float_type_error,
                  original_message_id = MessageId (step_message ''decision'' (Some 1)) \<rparr>]"
    by blast+
  from nodlq a1 cfg
  have r7: "dlq (fst (process_message ?V (queue_of (step_message ''llm'' (Some 3))) (db_with fresh_step)
                  (step_message ''llm'' (Some 3)) 10 12))
             = dlq (queue_of (step_message ''llm'' (Some 3)))"
    by blast
  from r1 r2 r3 r4 r5 r6 r7 show ?thesis by (simp add: queue_of_def)
qed

text \<open>
  C9 at failing inputs. A \<open>decision\<close> step whose body returns its output with 0 tokens
  and cost 0.0: the step row is updated to \<open>success\<close>, then the update of the run
  raises \<^verbatim>\<open>TypeError\<close> at \<^verbatim>\<open>run.estimated_cost_usd += cost\<close>, the handler of
  \<^verbatim>\<open>execute\<close> sets the row to \<open>failed\<close> with that error and commits, and the message
  is sent to the dead-letter queue instead of being deleted after a success. An
  \<open>llm\<close> step that returns the empty string with 9 tokens: the same, with the run's
  tokens incremented and committed, and the row has the tokens and no output. And
  the update to \<open>success\<close> itself, on a row that holds the output, 12 tokens and the
  cost of an earlier delivery, with an outcome of empty output, 0 tokens and cost 0:
  the row keeps the earlier output, tokens and cost.
\<close>

theorem successful_step_not_recorded:
  "process_message (worker_with (Inl ''unused'')) (queue_of (step_message ''decision'' (Some 1)))
      (db_with fresh_step) (step_message ''decision'' (Some 1)) 10 12
     = (\<lparr> main_queue = [],
          dlq = [\<lparr> dlq_body = \<lparr> body_run_id = Some ''r1'', body_step_id = Some ''s1'',
                                  body_step_name = Some ''step one'',
                                  body_step_type = Some ''decision'',
                                  body_step_config = Some (JObj []), body_attempt = Some 1 \<rparr>,
                    dlq_reason = decimal_float_type_error, original_message_id = ''m1'' \<rparr>] \<rparr>,
        \<lparr> steps = [''s1'' \<mapsto> fresh_step\<lparr> step_status := ''failed'', step_started_at := Some 10,
                               step_completed_at := Some 12, step_duration_seconds := Some 2,
                               step_output_data := Some (JObj [(''decision'', JStr ''placeholder'')]),
                               step_error_message := Some decimal_float_type_error \<rparr>],
          run_rows = [''r1'' \<mapsto> running_run] \<rparr>) \<and>
   execute (worker_with (empty_answer 9)) (db_with fresh_step) ''r1'' ''s1'' ''step one'' ''llm''
      (JObj []) 1 10 12
     = Inr (\<lparr> steps = [''s1'' \<mapsto> fresh_step\<lparr> step_status := ''failed'',
                                                step_started_at := Some 10,
                                                step_completed_at := Some 12,
                                                step_duration_seconds := Some 2,
                                                step_error_message := Some decimal_float_type_error,
                                                step_tokens_used := 9 \<rparr>],
              run_rows = [''r1'' \<mapsto> running_run\<lparr> run_tokens_used := 9 \<rparr>] \<rparr>,
            NotSucceeded decimal_float_type_error False) \<and>
   step_output_data fresh_step = None \<and>
   update_step_status (db_with done_step) ''s1'' ''success'' None (Some 12) (Some 2)
      (Some (JStr [])) None 0 0
     = Inr (db_with (done_step\<lparr> step_completed_at := Some 12 \<rparr>)) \<and>
   step_output_data done_step = Some (JStr ''first answer'') \<and>
   step_tokens_used done_step = 12 \<and> step_cost_usd done_step = 3 / 250000"
proof -
  have a: "process_message (worker_with (Inl ''unused'')) (queue_of (step_message ''decision'' (Some 1)))
      (db_with fresh_step) (step_message ''decision'' (Some 1)) 10 12
     = (\<lparr> main_queue = [],
          dlq = [\<lparr> dlq_body = \<lparr> body_run_id = Some ''r1'', body_step_id = Some ''s1'',
                                  body_step_name = Some ''step one'',
                                  body_step_type = Some ''decision'',
                                  body_step_config = Some (JObj []), body_attempt = Some 1 \<rparr>,
                    dlq_reason = decimal_float_type_error, original_message_id = ''m1'' \<rparr>] \<rparr>,
        \<lparr> steps = [''s1'' \<mapsto> fresh_step\<lparr> step_status := ''failed'', step_started_at := Some 10,
                               step_completed_at := Some 12, step_duration_seconds := Some 2,
                               step_output_data := Some (JObj [(''decision'', JStr ''placeholder'')]),
                               step_error_message := Some decimal_float_type_error \<rparr>],
          run_rows = [''r1'' \<mapsto> running_run] \<rparr>)"
    by (simp add: process_message_def step_message_def missing_fields_def required_fields_def
          has_key_def attempt_of_def step_config_of_def execute_decision move_to_dlq_def
          delete_message_def queue_of_def worker_with_sel)
  have b: "execute (worker_with (empty_answer 9)) (db_with fresh_step) ''r1'' ''s1'' ''step one'' ''llm''
      (JObj []) 1 10 12
     = Inr (\<lparr> steps = [''s1'' \<mapsto> fresh_step\<lparr> step_status := ''failed'',
                                                step_started_at := Some 10,
                                                step_completed_at := Some 12,
                                                step_duration_seconds := Some 2,
                                                step_error_message := Some decimal_float_type_error,
                                                step_tokens_used := 9 \<rparr>],
              run_rows = [''r1'' \<mapsto> running_run\<lparr> run_tokens_used := 9 \<rparr>] \<rparr>,
            NotSucceeded decimal_float_type_error False)"
    by (simp add: execute_def try_block_def update_step_status_def update_run_usage_def
          decimal_iadd_float_def dispatch_def type_error_not_retryable type_error_nonempty
          db_with_def fresh_step_def running_run_def empty_answer_def worker_with_sel
          nonempty_def Let_def)
  have c: "update_step_status (db_with done_step) ''s1'' ''success'' None (Some 12) (Some 2)
      (Some (JStr [])) None 0 0
     = Inr (db_with (done_step\<lparr> step_completed_at := Some 12 \<rparr>))"
    by (simp add: update_step_status_def db_with_def done_step_def fresh_step_def nonempty_def Let_def)
  show ?thesis
    unfolding a b c by (simp add: fresh_step_def done_step_def)
qed

end
